theory Spec2Isabelle
  imports Main "HOL-Library.Word"
begin

unbundle bit_operations_syntax

section \<open>Values of the program\<close>

text \<open>
  The program \<^verbatim>\<open>apod_desktop.py\<close> downloads NASA's picture of the day, stores it in a
  directory, records it in an SQLite table and sets it as the desktop background. The
  embedding follows the source function by function. Python \<^verbatim>\<open>bytes\<close> are lists of
  8-bit words, Python \<^verbatim>\<open>str\<close> values are HOL strings, Python \<^verbatim>\<open>int\<close> is \<open>int\<close>.
\<close>

type_synonym byte = "8 word"
type_synonym bytes = "byte list"
type_synonym path = string
type_synonym u32 = "32 word"

text \<open>
  The values compared by \<^verbatim>\<open>==\<close> in \<^verbatim>\<open>image_already_in_db\<close>: a string, and the list
  of tuples that \<^verbatim>\<open>cursor.fetchall()\<close> returns. Python's \<^verbatim>\<open>==\<close> on these built-in types
  is structural, and values of different types are never equal, which is the equality of
  this datatype.
\<close>

datatype pyval = PyStr string | PyTuple "pyval list" | PyList "pyval list"

text \<open>\<^verbatim>\<open>str(n)\<close> for a Python integer: decimal digits, a minus sign when negative.\<close>

definition digit_char :: "nat \<Rightarrow> char" where
  "digit_char n = ''0123456789'' ! n"

fun str_nat :: "nat \<Rightarrow> string" where
  "str_nat n = (if n < 10 then [digit_char n] else str_nat (n div 10) @ [digit_char (n mod 10)])"

declare str_nat.simps [simp del]

definition str_int :: "int \<Rightarrow> string" where
  "str_int i = (if i < 0 then CHR ''-'' # str_nat (nat (- i)) else str_nat (nat i))"

section \<open>hashlib.sha256\<close>

text \<open>
  \<^verbatim>\<open>hashlib.sha256(image_msg).hexdigest()\<close> is the SHA-256 function of FIPS 180-4 followed
  by lower-case hexadecimal rendering. The library is not part of the repository; it is
  modelled from the standard: padding to a multiple of 64 bytes, the message schedule of
  64 words for every block, 64 rounds of the compression function, all on 32-bit words.
\<close>

definition rotr :: "nat \<Rightarrow> u32 \<Rightarrow> u32" where
  "rotr n x = drop_bit n x OR push_bit (32 - n) x"

definition Ch :: "u32 \<Rightarrow> u32 \<Rightarrow> u32 \<Rightarrow> u32" where
  "Ch x y z = (x AND y) XOR (NOT x AND z)"

definition Maj :: "u32 \<Rightarrow> u32 \<Rightarrow> u32 \<Rightarrow> u32" where
  "Maj x y z = (x AND y) XOR (x AND z) XOR (y AND z)"

definition bsig0 :: "u32 \<Rightarrow> u32" where
  "bsig0 x = rotr 2 x XOR rotr 13 x XOR rotr 22 x"

definition bsig1 :: "u32 \<Rightarrow> u32" where
  "bsig1 x = rotr 6 x XOR rotr 11 x XOR rotr 25 x"

definition ssig0 :: "u32 \<Rightarrow> u32" where
  "ssig0 x = rotr 7 x XOR rotr 18 x XOR drop_bit 3 x"

definition ssig1 :: "u32 \<Rightarrow> u32" where
  "ssig1 x = rotr 17 x XOR rotr 19 x XOR drop_bit 10 x"

text \<open>The round constants, eight for each row.\<close>

definition sha_K :: "u32 list" where
  "sha_K =
     [0x428a2f98, 0x71374491, 0xb5c0fbcf, 0xe9b5dba5, 0x3956c25b, 0x59f111f1, 0x923f82a4, 0xab1c5ed5] @
     [0xd807aa98, 0x12835b01, 0x243185be, 0x550c7dc3, 0x72be5d74, 0x80deb1fe, 0x9bdc06a7, 0xc19bf174] @
     [0xe49b69c1, 0xefbe4786, 0x0fc19dc6, 0x240ca1cc, 0x2de92c6f, 0x4a7484aa, 0x5cb0a9dc, 0x76f988da] @
     [0x983e5152, 0xa831c66d, 0xb00327c8, 0xbf597fc7, 0xc6e00bf3, 0xd5a79147, 0x06ca6351, 0x14292967] @
     [0x27b70a85, 0x2e1b2138, 0x4d2c6dfc, 0x53380d13, 0x650a7354, 0x766a0abb, 0x81c2c92e, 0x92722c85] @
     [0xa2bfe8a1, 0xa81a664b, 0xc24b8b70, 0xc76c51a3, 0xd192e819, 0xd6990624, 0xf40e3585, 0x106aa070] @
     [0x19a4c116, 0x1e376c08, 0x2748774c, 0x34b0bcb5, 0x391c0cb3, 0x4ed8aa4a, 0x5b9cca4f, 0x682e6ff3] @
     [0x748f82ee, 0x78a5636f, 0x84c87814, 0x8cc70208, 0x90befffa, 0xa4506ceb, 0xbef9a3f7, 0xc67178f2]"

type_synonym sha_state = "u32 \<times> u32 \<times> u32 \<times> u32 \<times> u32 \<times> u32 \<times> u32 \<times> u32"

definition sha_H0 :: sha_state where
  "sha_H0 = (0x6a09e667, 0xbb67ae85, 0x3c6ef372, 0xa54ff53a,
             0x510e527f, 0x9b05688c, 0x1f83d9ab, 0x5be0cd19)"

text \<open>The message length in bits, as 8 bytes, most significant first.\<close>

definition be64 :: "64 word \<Rightarrow> bytes" where
  "be64 n = map (\<lambda>i. ucast (drop_bit (8 * i) n)) [7, 6, 5, 4, 3, 2, 1, 0]"

definition sha_pad :: "bytes \<Rightarrow> bytes" where
  "sha_pad m =
     m @ [0x80] @ replicate ((119 - length m mod 64) mod 64) 0 @ be64 (8 * of_nat (length m))"

definition sha_blocks :: "bytes \<Rightarrow> bytes list" where
  "sha_blocks p = map (\<lambda>i. take 64 (drop (64 * i) p)) [0..<length p div 64]"

definition be32 :: "bytes \<Rightarrow> u32" where
  "be32 bs = fold (\<lambda>b acc. push_bit 8 acc OR ucast b) bs 0"

definition block_words :: "bytes \<Rightarrow> u32 list" where
  "block_words blk = map (\<lambda>i. be32 (take 4 (drop (4 * i) blk))) [0..<16]"

text \<open>The message schedule: each further word from the words 2, 7, 15 and 16 places back.\<close>

primrec sched_ext :: "nat \<Rightarrow> u32 list \<Rightarrow> u32 list" where
  "sched_ext 0 w = w"
| "sched_ext (Suc n) w =
     sched_ext n
       (w @ [ssig1 (w ! (length w - 2)) + w ! (length w - 7) +
             ssig0 (w ! (length w - 15)) + w ! (length w - 16)])"

fun sha_round :: "u32 \<times> u32 \<Rightarrow> sha_state \<Rightarrow> sha_state" where
  "sha_round (k, w) (a, b, c, d, e, f, g, h) =
     (let t1 = h + bsig1 e + Ch e f g + k + w;
          t2 = bsig0 a + Maj a b c
      in (t1 + t2, a, b, c, d + t1, e, f, g))"

fun sha_add :: "sha_state \<Rightarrow> sha_state \<Rightarrow> sha_state" where
  "sha_add (a, b, c, d, e, f, g, h) (a', b', c', d', e', f', g', h') =
     (a + a', b + b', c + c', d + d', e + e', f + f', g + g', h + h')"

definition sha_compress :: "bytes \<Rightarrow> sha_state \<Rightarrow> sha_state" where
  "sha_compress blk H =
     sha_add H (fold sha_round (zip sha_K (sched_ext 48 (block_words blk))) H)"

definition sha256_state :: "bytes \<Rightarrow> sha_state" where
  "sha256_state m = fold sha_compress (sha_blocks (sha_pad m)) sha_H0"

definition hex_digit :: "nat \<Rightarrow> char" where
  "hex_digit n = ''0123456789abcdef'' ! n"

definition hex32 :: "u32 \<Rightarrow> string" where
  "hex32 w = map (\<lambda>i. hex_digit (unat (drop_bit (4 * i) w AND 15))) [7, 6, 5, 4, 3, 2, 1, 0]"

fun hexdigest :: "sha_state \<Rightarrow> string" where
  "hexdigest (a, b, c, d, e, f, g, h) =
     hex32 a @ hex32 b @ hex32 c @ hex32 d @ hex32 e @ hex32 f @ hex32 g @ hex32 h"

definition sha256_hexdigest :: "bytes \<Rightarrow> string" where
  "sha256_hexdigest m = hexdigest (sha256_state m)"

section \<open>os.path\<close>

text \<open>
  \<^verbatim>\<open>os.path\<close> is \<^verbatim>\<open>posixpath\<close> or \<^verbatim>\<open>ntpath\<close>, depending on the platform. The three
  functions \<^verbatim>\<open>get_image_path\<close> and \<^verbatim>\<open>main\<close> call are taken as a parameter; the
  \<^verbatim>\<open>posixpath\<close> instance is written out so that the program can be evaluated.
\<close>

record ospath =
  normpath :: "string \<Rightarrow> string"
  basename :: "string \<Rightarrow> string"
  join :: "string \<Rightarrow> string \<Rightarrow> string"

text \<open>\<^verbatim>\<open>s.split(c)\<close>: the pieces between the separators, at least one piece.\<close>

fun split_sep :: "char \<Rightarrow> string \<Rightarrow> string list" where
  "split_sep c [] = [[]]"
| "split_sep c (x # xs) =
     (if x = c then [] # split_sep c xs
      else (case split_sep c xs of [] \<Rightarrow> [[x]] | p # ps \<Rightarrow> (x # p) # ps))"

text \<open>\<^verbatim>\<open>sep.join(comps)\<close>.\<close>

fun sep_join :: "string \<Rightarrow> string list \<Rightarrow> string" where
  "sep_join sep [] = []"
| "sep_join sep [x] = x"
| "sep_join sep (x # y # ys) = x @ sep @ sep_join sep (y # ys)"

text \<open>One iteration of the loop of \<^verbatim>\<open>posixpath.normpath\<close> over the components.\<close>

definition norm_step :: "nat \<Rightarrow> string \<Rightarrow> string list \<Rightarrow> string list" where
  "norm_step initial_slashes cmp new_comps =
     (if cmp = [] \<or> cmp = ''.'' then new_comps
      else if cmp \<noteq> ''..'' \<or> (initial_slashes = 0 \<and> new_comps = []) \<or>
              (new_comps \<noteq> [] \<and> last new_comps = ''..'')
      then new_comps @ [cmp]
      else if new_comps \<noteq> [] then butlast new_comps
      else new_comps)"

definition posix_normpath :: "string \<Rightarrow> string" where
  "posix_normpath p =
     (if p = [] then ''.''
      else
        (let initial_slashes =
               (if take 1 p = ''/'' then
                  (if take 2 p = ''//'' \<and> take 3 p \<noteq> ''///'' then 2 else 1)
                else (0::nat));
             comps = fold (norm_step initial_slashes) (split_sep (CHR ''/'') p) [];
             q = replicate initial_slashes (CHR ''/'') @ sep_join ''/'' comps
         in if q = [] then ''.'' else q))"

text \<open>\<^verbatim>\<open>posixpath.basename\<close>: what follows the last slash.\<close>

definition posix_basename :: "string \<Rightarrow> string" where
  "posix_basename p = rev (takeWhile (\<lambda>c. c \<noteq> CHR ''/'') (rev p))"

text \<open>\<^verbatim>\<open>posixpath.join\<close> of two components.\<close>

definition posix_join :: "string \<Rightarrow> string \<Rightarrow> string" where
  "posix_join a b =
     (if take 1 b = ''/'' then b
      else if a = [] \<or> last a = CHR ''/'' then a @ b
      else a @ ''/'' @ b)"

definition posixpath :: ospath where
  "posixpath = \<lparr>normpath = posix_normpath, basename = posix_basename, join = posix_join\<rparr>"

section \<open>datetime\<close>

text \<open>
  A \<^verbatim>\<open>date\<close> object. \<^verbatim>\<open>date.isoformat()\<close> prints it as
  \<^verbatim>\<open>"%04d-%02d-%02d"\<close>.
\<close>

record date =
  year :: nat
  month :: nat
  day :: nat

definition is_leap :: "nat \<Rightarrow> bool" where
  "is_leap y = (y mod 4 = 0 \<and> (y mod 100 \<noteq> 0 \<or> y mod 400 = 0))"

definition days_in_month :: "nat \<Rightarrow> nat \<Rightarrow> nat" where
  "days_in_month y m =
     (if m = 2 then (if is_leap y then 29 else 28)
      else if m = 4 \<or> m = 6 \<or> m = 9 \<or> m = 11 then 30
      else 31)"

text \<open>The dates a \<^verbatim>\<open>date\<close> object can hold (\<^verbatim>\<open>MINYEAR = 1\<close>, \<^verbatim>\<open>MAXYEAR = 9999\<close>).\<close>

definition valid_date :: "date \<Rightarrow> bool" where
  "valid_date d =
     (1 \<le> year d \<and> year d \<le> 9999 \<and> 1 \<le> month d \<and> month d \<le> 12 \<and>
      1 \<le> day d \<and> day d \<le> days_in_month (year d) (month d))"

definition zpad :: "nat \<Rightarrow> string \<Rightarrow> string" where
  "zpad k s = replicate (k - length s) (CHR ''0'') @ s"

definition isoformat :: "date \<Rightarrow> string" where
  "isoformat d =
     zpad 4 (str_nat (year d)) @ ''-'' @ zpad 2 (str_nat (month d)) @ ''-'' @
     zpad 2 (str_nat (day d))"

text \<open>
  \<^verbatim>\<open>datetime.strptime(s, '%Y-%m-%d')\<close> compiles the format to the regular expression
  \<^verbatim>\<open>(?P<Y>\d\d\d\d)-(?P<m>1[0-2]|0[1-9]|[1-9])-(?P<d>3[0-1]|[1-2]\d|0[1-9]|[1-9]| [1-9])\<close>,
  matches it at the start of the string, raises \<^verbatim>\<open>ValueError\<close> when there is no match
  or when the match does not reach the end of the string, and raises \<^verbatim>\<open>ValueError\<close> again
  when year, month and day are not a date. Each piece of the expression is a function
  from the input to the list of its matches in the order the backtracking matcher tries
  them (the value read and the rest of the input); the match found is the first of the
  list.

  A Python \<^verbatim>\<open>str\<close> is a HOL string holding its UTF-8 encoding. In a \<^verbatim>\<open>str\<close> pattern
  \<^verbatim>\<open>\d\<close> matches every decimal digit of Unicode, and \<^verbatim>\<open>int\<close> reads them all: an ASCII
  digit is one character here, a digit of another script is several. Which sequences are
  such digits is a table of the Unicode database, not of the repository: it is the
  parameter \<open>nd\<close>, which reads one such digit at the head of a string that does not
  start with an ASCII character and returns its value and the rest. The character classes
  written with brackets match ASCII digits only.
\<close>

type_synonym digit_reader = "string \<Rightarrow> (nat \<times> string) option"

definition is_digit :: "char \<Rightarrow> bool" where
  "is_digit c = (c \<in> set ''0123456789'')"

definition digit_val :: "char \<Rightarrow> nat" where
  "digit_val c = of_char c - 48"

text \<open>\<^verbatim>\<open>\d\<close>.\<close>

definition re_digit :: "digit_reader \<Rightarrow> string \<Rightarrow> (nat \<times> string) list" where
  "re_digit nd s =
     (case s of
        [] \<Rightarrow> []
      | c # rest \<Rightarrow>
          if is_digit c then [(digit_val c, rest)]
          else if (of_char c :: nat) < 128 then []
          else (case nd s of None \<Rightarrow> [] | Some x \<Rightarrow> [x]))"

text \<open>\<^verbatim>\<open>\d\d\d\d\<close>, read as \<^verbatim>\<open>int\<close> reads it.\<close>

definition re_Y :: "digit_reader \<Rightarrow> string \<Rightarrow> (nat \<times> string) list" where
  "re_Y nd s =
     [(1000 * a + 100 * b + 10 * c + d, r4).
        (a, r1) \<leftarrow> re_digit nd s, (b, r2) \<leftarrow> re_digit nd r1,
        (c, r3) \<leftarrow> re_digit nd r2, (d, r4) \<leftarrow> re_digit nd r3]"

fun re_lit :: "char \<Rightarrow> string \<Rightarrow> string list" where
  "re_lit c (x # rest) = (if x = c then [rest] else [])"
| "re_lit c [] = []"

text \<open>Two characters, the first from \<open>as\<close> and the second from \<open>bs\<close>, read as a number.\<close>

fun re_two :: "string \<Rightarrow> string \<Rightarrow> string \<Rightarrow> (nat \<times> string) list" where
  "re_two as bs (a # b # rest) =
     (if a \<in> set as \<and> b \<in> set bs then [(10 * digit_val a + digit_val b, rest)] else [])"
| "re_two as bs _ = []"

fun re_one :: "string \<Rightarrow> string \<Rightarrow> (nat \<times> string) list" where
  "re_one as (a # rest) = (if a \<in> set as then [(digit_val a, rest)] else [])"
| "re_one as [] = []"

text \<open>A character from \<open>as\<close> and then \<^verbatim>\<open>\d\<close>: the alternative \<^verbatim>\<open>[1-2]\d\<close> of the day.\<close>

fun re_then_digit :: "digit_reader \<Rightarrow> string \<Rightarrow> string \<Rightarrow> (nat \<times> string) list" where
  "re_then_digit nd as (a # rest) =
     (if a \<in> set as then [(10 * digit_val a + b, r). (b, r) \<leftarrow> re_digit nd rest] else [])"
| "re_then_digit nd as [] = []"

definition re_m :: "string \<Rightarrow> (nat \<times> string) list" where
  "re_m s = re_two ''1'' ''012'' s @ re_two ''0'' ''123456789'' s @ re_one ''123456789'' s"

definition re_d :: "digit_reader \<Rightarrow> string \<Rightarrow> (nat \<times> string) list" where
  "re_d nd s =
     re_two ''3'' ''01'' s @ re_then_digit nd ''12'' s @ re_two ''0'' ''123456789'' s @
     re_one ''123456789'' s @
     concat (map (re_one ''123456789'') (re_lit (CHR '' '') s))"

definition re_Ymd :: "digit_reader \<Rightarrow> string \<Rightarrow> ((nat \<times> nat \<times> nat) \<times> string) list" where
  "re_Ymd nd s =
     [((y, m, d), r5).
        (y, r1) \<leftarrow> re_Y nd s, r2 \<leftarrow> re_lit (CHR ''-'') r1, (m, r3) \<leftarrow> re_m r2,
        r4 \<leftarrow> re_lit (CHR ''-'') r3, (d, r5) \<leftarrow> re_d nd r4]"

text \<open>\<open>None\<close> is \<^verbatim>\<open>ValueError\<close>.\<close>

definition strptime_Ymd :: "digit_reader \<Rightarrow> string \<Rightarrow> date option" where
  "strptime_Ymd nd s =
     (case re_Ymd nd s of
        [] \<Rightarrow> None
      | ((y, m, d), rest) # _ \<Rightarrow>
          if rest \<noteq> [] then None
          else if 1 \<le> y \<and> d \<le> days_in_month y m
          then Some \<lparr>year = y, month = m, day = d\<rparr>
          else None)"

text \<open>
  A reader that knows the ten ARABIC-INDIC digits, U+0660 to U+0669, which UTF-8 writes as
  the byte D9 and a byte from A0 to A9.
\<close>

definition arabic_indic :: digit_reader where
  "arabic_indic s =
     (case s of
        a # b # rest \<Rightarrow>
          if a = CHR 0xD9 \<and> (0xA0::nat) \<le> of_char b \<and> (of_char b :: nat) \<le> 0xA9
          then Some (of_char b - 0xA0, rest)
          else None
      | _ \<Rightarrow> None)"

text \<open>The date 2022-03-11 with its year in those digits.\<close>

definition arabic_date :: string where
  "arabic_date =
     [CHR 0xD9, CHR 0xA2, CHR 0xD9, CHR 0xA0, CHR 0xD9, CHR 0xA2, CHR 0xD9, CHR 0xA2] @ ''-03-11''"

section \<open>The environment and the state\<close>

text \<open>
  What the program reads and does not change is the environment: the command line, the
  clock, the decimal digits of Unicode beyond ASCII that \<^verbatim>\<open>strptime\<close> reads (the parameter
  \<open>nd\<close> above), which paths are directories, what the two HTTP requests answer (\<open>None\<close>: the
  request raises), the truth value SQLite gives a TEXT cell used as a condition, which
  paths \<^verbatim>\<open>open(path, 'wb')\<close> can open, and whether \<^verbatim>\<open>ctypes.windll\<close> exists.
  The answer of the NASA API is its status code and the \<^verbatim>\<open>'url'\<close> entry of its JSON body,
  when there is one; the answer of the image server is its status code and its body.
\<close>

record env =
  argv :: "string list"
  today :: date
  unicode_digit :: digit_reader
  isdir :: "path \<Rightarrow> bool"
  os_path :: ospath
  api :: "string \<Rightarrow> (nat \<times> string option) option"
  http :: "string \<Rightarrow> (nat \<times> bytes) option"
  sql_true :: "string \<Rightarrow> bool"
  can_open :: "path \<Rightarrow> bool"
  windll :: bool

text \<open>
  A row of the table \<^verbatim>\<open>apod_images\<close>. The four columns are declared \<^verbatim>\<open>TEXT\<close>, so SQLite
  stores every value as text, also the integer given for \<^verbatim>\<open>File_size\<close>.
\<close>

record row =
  date_col :: string
  full_path :: string
  File_size :: string
  SHA_256 :: string

text \<open>
  What the program does to the outside, in order. The state is the image files, the
  table \<^verbatim>\<open>apod_images\<close> of the database at each path (\<open>None\<close>: no such table there) and
  the trace of the effects so far. The database is kept apart from the image files: the
  model follows the program as long as no image path is the path of a file that SQLite
  keeps for a database (the database file, its journal, its write-ahead log), and as long
  as the size of an image fits the 64-bit integer SQLite binds. The theorems that promise
  what a run stores say so in their hypotheses (\<open>db_files\<close> and \<open>apart\<close> below).
\<close>

datatype event =
    Print string
  | ApiGet string
  | Download string
  | DbCreate path
  | DbSelect path
  | DbInsert path
  | FileWrite path
  | SetWallpaper path

record world =
  files :: "path \<rightharpoonup> bytes"
  dbs :: "path \<rightharpoonup> row list"
  trace :: "event list"

datatype error =
    SystemExit string
  | RequestError
  | KeyError
  | OperationalError
  | OSError
  | AttributeError

definition emit :: "event \<Rightarrow> world \<Rightarrow> world" where
  "emit x w = w\<lparr>trace := trace w @ [x]\<rparr>"

section \<open>The program\<close>

definition get_image_dir_path :: "env \<Rightarrow> world \<Rightarrow> (error + path) \<times> world" where
  "get_image_dir_path e w =
     (if length (argv e) \<ge> 2 then
        (let dir_path = argv e ! 1 in
         if isdir e dir_path
         then (Inr dir_path, emit (Print (''Images directory: '' @ dir_path)) w)
         else (Inl (SystemExit ''Script execution aborted''),
               emit (Print (''Error: Non-existent directory '' @ dir_path)) w))
      else (Inl (SystemExit ''Script execution aborted''),
            emit (Print ''Error: Missing path parameter.'') w))"

definition get_apod_date :: "env \<Rightarrow> world \<Rightarrow> (error + string) \<times> world" where
  "get_apod_date e w =
     (if length (argv e) \<ge> 3 then
        (let apod_date = argv e ! 2 in
         case strptime_Ymd (unicode_digit e) apod_date of
           None \<Rightarrow>
             (Inl (SystemExit ''Script execution aborted''),
              emit (Print ''Error: Incorrect date format; Should be YYYY-MM-DD'') w)
         | Some _ \<Rightarrow> (Inr apod_date, emit (Print (''APOD date: '' @ apod_date)) w))
      else
        (let apod_date = isoformat (today e)
         in (Inr apod_date, emit (Print (''APOD date: '' @ apod_date)) w)))"

text \<open>
  The normalised directory path of line 118 is thrown away, so it does not appear.
\<close>

definition get_image_path :: "ospath \<Rightarrow> string \<Rightarrow> path \<Rightarrow> path" where
  "get_image_path osp image_url dir_path =
     (let new_image_url = basename osp (normpath osp image_url)
      in join osp dir_path new_image_url)"

text \<open>The dictionary \<^verbatim>\<open>{'url': url}\<close> is a map with that one key.\<close>

definition get_apod_info :: "env \<Rightarrow> string \<Rightarrow> world \<Rightarrow> (error + (string \<rightharpoonup> string)) \<times> world" where
  "get_apod_info e date w =
     (let w1 = emit (ApiGet date) w in
      case api e date of
        None \<Rightarrow> (Inl RequestError, w1)
      | Some (status_code, json_url) \<Rightarrow>
          (let w2 = emit (Print (if status_code = 200
                                 then ''Getting APOD info from NASA... success!''
                                 else ''Close, but no cigar '' @ str_nat status_code)) w1
           in case json_url of
                None \<Rightarrow> (Inl KeyError, w2)
              | Some url \<Rightarrow> (Inr [''url'' \<mapsto> url], w2)))"

definition print_apod_info :: "string \<Rightarrow> path \<Rightarrow> int \<Rightarrow> string \<Rightarrow> world \<Rightarrow> world" where
  "print_apod_info image_url image_path image_size image_sha256 w =
     emit (Print (''     SHA-256: '' @ image_sha256))
       (emit (Print (''     File Size: '' @ str_int image_size @ '' bytes''))
         (emit (Print (''     File Path: '' @ image_path))
           (emit (Print (''     URL: '' @ image_url))
             (emit (Print ''APOD Information:'') w))))"

definition download_apod_image :: "env \<Rightarrow> string \<Rightarrow> world \<Rightarrow> (error + bytes) \<times> world" where
  "download_apod_image e image_url w =
     (let w1 = emit (Download image_url) w in
      case http e image_url of
        None \<Rightarrow> (Inl RequestError, w1)
      | Some (status_code, content) \<Rightarrow>
          (Inr content,
           emit (Print (if status_code = 200
                        then ''downloading APOD from NASA... success!''
                        else ''Close, but no cigar '' @ str_nat status_code)) w1))"

text \<open>\<^verbatim>\<open>open(image_path, 'wb')\<close> replaces the file at the path by the bytes written.\<close>

definition save_image_file :: "env \<Rightarrow> bytes \<Rightarrow> path \<Rightarrow> world \<Rightarrow> (error + unit) \<times> world" where
  "save_image_file e image_msg image_path w =
     (if can_open e image_path
      then (Inr (),
            emit (Print ''Saving Image File... Success!'')
              (emit (FileWrite image_path)
                (w\<lparr>files := (files w)(image_path \<mapsto> image_msg)\<rparr>)))
      else (Inl OSError, w))"

text \<open>\<^verbatim>\<open>CREATE TABLE IF NOT EXISTS\<close>: an existing table keeps its rows.\<close>

definition create_image_db :: "path \<Rightarrow> world \<Rightarrow> world" where
  "create_image_db db_path w =
     emit (DbCreate db_path)
       (case dbs w db_path of
          None \<Rightarrow> w\<lparr>dbs := (dbs w)(db_path \<mapsto> [])\<rparr>
        | Some _ \<Rightarrow> w)"

text \<open>
  The table has no constraint, so \<^verbatim>\<open>INSERT\<close> fails only when the table is missing. The
  first value of the tuple \<^verbatim>\<open>image_info\<close>, which goes to the column \<^verbatim>\<open>"date"\<close>, is
  \<^verbatim>\<open>db_path\<close>.
\<close>

definition add_image_to_db :: "path \<Rightarrow> path \<Rightarrow> int \<Rightarrow> string \<Rightarrow> world \<Rightarrow> (error + unit) \<times> world" where
  "add_image_to_db db_path image_path image_size image_sha256 w =
     (let w1 = emit (DbInsert db_path) w in
      case dbs w db_path of
        None \<Rightarrow> (Inl OperationalError, w1)
      | Some rows \<Rightarrow>
          (let image_info = \<lparr>date_col = db_path, full_path = image_path,
                              File_size = str_int image_size, SHA_256 = image_sha256\<rparr>
           in (Inr (), w1\<lparr>dbs := (dbs w)(db_path \<mapsto> rows @ [image_info])\<rparr>)))"

text \<open>
  The query is \<^verbatim>\<open>SELECT SHA_256 FROM apod_images WHERE SHA_256\<close>: its condition is the
  cell itself, and \<^verbatim>\<open>fetchall\<close> returns a list of one-element tuples. The result is
  \<open>Some True\<close>, \<open>Some False\<close>, or \<open>None\<close> where the function would reach its end
  without a \<^verbatim>\<open>return\<close>.
\<close>

definition image_already_in_db :: "env \<Rightarrow> path \<Rightarrow> string \<Rightarrow> world \<Rightarrow> (error + bool option) \<times> world" where
  "image_already_in_db e db_path image_sha256 w =
     (let w1 = emit (DbSelect db_path) w in
      case dbs w db_path of
        None \<Rightarrow> (Inl OperationalError, w1)
      | Some rows \<Rightarrow>
          (let results = PyList (map (\<lambda>r. PyTuple [PyStr (SHA_256 r)])
                                     (filter (\<lambda>r. sql_true e (SHA_256 r)) rows))
           in if results = PyStr image_sha256
              then (Inr (Some True), emit (Print ''New Image already in database'') w1)
              else if results \<noteq> PyStr image_sha256
              then (Inr (Some False), emit (Print ''New Image not in cache'') w1)
              else (Inr None, w1)))"

definition set_desktop_background_image :: "env \<Rightarrow> path \<Rightarrow> world \<Rightarrow> (error + unit) \<times> world" where
  "set_desktop_background_image e image_path w =
     (if windll e
      then (Inr (),
            emit (Print ''setting Desktop Wallpaper... Success!'')
              (emit (SetWallpaper image_path) w))
      else (Inl AttributeError, w))"

text \<open>
  Lines 55 to 58 of \<^verbatim>\<open>main\<close>: the image is saved and recorded unless
  \<^verbatim>\<open>image_already_in_db\<close> returned a true value.
\<close>

definition cache_image ::
  "env \<Rightarrow> path \<Rightarrow> bytes \<Rightarrow> path \<Rightarrow> int \<Rightarrow> string \<Rightarrow> world \<Rightarrow> (error + unit) \<times> world" where
  "cache_image e db_path image_msg image_path image_size image_sha256 w =
     (case image_already_in_db e db_path image_sha256 w of
        (Inl err, w1) \<Rightarrow> (Inl err, w1)
      | (Inr r, w1) \<Rightarrow>
          if r \<noteq> Some True then
            (case save_image_file e image_msg image_path w1 of
               (Inl err, w2) \<Rightarrow> (Inl err, w2)
             | (Inr _, w2) \<Rightarrow> add_image_to_db db_path image_path image_size image_sha256 w2)
          else (Inr (), w1))"

text \<open>
  \<^verbatim>\<open>main\<close>: the error that ends the run, if any, and the state it leaves.
\<close>

definition main :: "env \<Rightarrow> world \<Rightarrow> error option \<times> world" where
  "main e w =
     (case get_image_dir_path e w of
        (Inl err, w1) \<Rightarrow> (Some err, w1)
      | (Inr image_dir_path, w1) \<Rightarrow>
     (let db_path = join (os_path e) image_dir_path ''apod_images.db'' in
      case get_apod_date e w1 of
        (Inl err, w2) \<Rightarrow> (Some err, w2)
      | (Inr apod_date, w2) \<Rightarrow>
     (let w3 = create_image_db db_path w2 in
      case get_apod_info e apod_date w3 of
        (Inl err, w4) \<Rightarrow> (Some err, w4)
      | (Inr apod_info_dict, w4) \<Rightarrow>
     (case apod_info_dict ''url'' of
        None \<Rightarrow> (Some KeyError, w4)
      | Some image_url \<Rightarrow>
     (case download_apod_image e image_url w4 of
        (Inl err, w5) \<Rightarrow> (Some err, w5)
      | (Inr image_msg, w5) \<Rightarrow>
     (let image_sha256 = sha256_hexdigest image_msg;
          image_size = - 1 + int (length image_msg);
          image_path = get_image_path (os_path e) image_url image_dir_path;
          w6 = print_apod_info image_url image_path image_size image_sha256 w5
      in
      case cache_image e db_path image_msg image_path image_size image_sha256 w6 of
        (Inl err, w7) \<Rightarrow> (Some err, w7)
      | (Inr _, w7) \<Rightarrow>
     (case set_desktop_background_image e image_path w7 of
        (Inl err, w8) \<Rightarrow> (Some err, w8)
      | (Inr _, w8) \<Rightarrow> (None, w8))))))))"

section \<open>Effects, and a concrete run\<close>

text \<open>The effects of a run other than printing.\<close>

fun effect :: "event \<Rightarrow> bool" where
  "effect (Print _) = False"
| "effect _ = True"

definition effects :: "world \<Rightarrow> event list" where
  "effects w = filter effect (trace w)"

text \<open>
  The truth value SQLite gives a text of hexadecimal digits, such as a digest: the text
  is cast to a number, which reads its longest numeric prefix, and the condition holds
  when the number is not zero, that is when the leading run of decimal digits has a
  digit other than 0.
\<close>

definition sqlite_true_hex :: "string \<Rightarrow> bool" where
  "sqlite_true_hex s = (\<exists>c \<in> set (takeWhile is_digit s). c \<noteq> CHR ''0'')"

text \<open>
  A run to evaluate the program on: the images directory is \<^verbatim>\<open>imgs\<close>, the API answers
  the date 2022-03-11 with the URL of \<^verbatim>\<open>pic.jpg\<close>, and the image server answers that
  URL with the three bytes \<^verbatim>\<open>abc\<close>.
\<close>

definition demo_url :: string where
  "demo_url = ''https://apod.nasa.gov/apod/image/2203/pic.jpg''"

definition demo_bytes :: bytes where
  "demo_bytes = [0x61, 0x62, 0x63]"

definition demo_env :: "string list \<Rightarrow> env" where
  "demo_env args =
     \<lparr>argv = args,
      today = \<lparr>year = 2022, month = 3, day = 12\<rparr>,
      unicode_digit = arabic_indic,
      isdir = (\<lambda>p. p = ''imgs''),
      os_path = posixpath,
      api = (\<lambda>d. if d = ''2022-03-11'' then Some (200, Some demo_url) else None),
      http = (\<lambda>u. if u = demo_url then Some (200, demo_bytes) else None),
      sql_true = sqlite_true_hex,
      can_open = (\<lambda>p. True),
      windll = True\<rparr>"

definition demo_args :: "string list" where
  "demo_args = [''apod_desktop.py'', ''imgs'', ''2022-03-11'']"

definition empty_world :: world where
  "empty_world = \<lparr>files = Map.empty, dbs = Map.empty, trace = []\<rparr>"

text \<open>The row that the run above adds to the table.\<close>

definition demo_row :: row where
  "demo_row =
     \<lparr>date_col = ''imgs/apod_images.db'', full_path = ''imgs/pic.jpg'', File_size = ''2'',
      SHA_256 = ''ba7816bf8f01cfea414140de5dae2223b00361a396177a9cb410ff61f20015ad''\<rparr>"

text \<open>
  A later run: another date, for which the API answers with another URL that has the same
  base name, and the image server with four other bytes.
\<close>

definition later_url :: string where
  "later_url = ''https://apod.nasa.gov/apod/image/2204/pic.jpg''"

definition later_bytes :: bytes where
  "later_bytes = [0x61, 0x62, 0x63, 0x64]"

definition later_env :: env where
  "later_env =
     (demo_env [''apod_desktop.py'', ''imgs'', ''2022-04-01''])
       \<lparr>api := (\<lambda>d. if d = ''2022-04-01'' then Some (200, Some later_url) else None),
        http := (\<lambda>u. if u = later_url then Some (200, later_bytes) else None)\<rparr>"



text \<open>Every table of the first state is there in the second, with its rows first.\<close>

definition rows_kept :: "world \<Rightarrow> world \<Rightarrow> bool" where
  "rows_kept w w' = (\<forall>p rows. dbs w p = Some rows \<longrightarrow> (\<exists>more. dbs w' p = Some (rows @ more)))"

text \<open>
  The files SQLite keeps for the database at a path: the database file, and beside it the
  rollback journal, the write-ahead log and its shared-memory file. SQLite reads, creates
  and deletes them on its own, so what the program does is as modelled only while no
  image file lies at one of them. A state is \<open>apart\<close> when none does, for every database
  it holds. The image files and the tables only grow in the model, so a run that ends
  in such a state has been in such states all along.
\<close>

definition db_files :: "path \<Rightarrow> path set" where
  "db_files db_path = {db_path, db_path @ ''-journal'', db_path @ ''-wal'', db_path @ ''-shm''}"



section \<open>SHA-256: test vectors and the shape of the digest\<close>

lemma sha256_empty:
  "sha256_hexdigest [] = ''e3b0c44298fc1c149afbf4c8996fb92427ae41e4649b934ca495991b7852b855''"
  by code_simp

lemma sha256_abc:
  "sha256_hexdigest demo_bytes =
     ''ba7816bf8f01cfea414140de5dae2223b00361a396177a9cb410ff61f20015ad''"
  by code_simp


section \<open>The steps of the program\<close>

lemma emit_simps [simp]:
  "files (emit x w) = files w" "dbs (emit x w) = dbs w" "trace (emit x w) = trace w @ [x]"
  by (simp_all add: emit_def)

lemma effects_emit [simp]:
  "effects (emit x w) = (if effect x then effects w @ [x] else effects w)"
  by (simp add: effects_def)

lemma effects_update [simp]:
  "effects (w\<lparr>dbs := x\<rparr>) = effects w" "effects (w\<lparr>files := y\<rparr>) = effects w"
  by (simp_all add: effects_def)

lemma image_already_in_db_result:
  "dbs w p = Some rows \<Longrightarrow>
   image_already_in_db e p d w =
     (Inr (Some False), emit (Print ''New Image not in cache'') (emit (DbSelect p) w))"
  by (simp add: image_already_in_db_def)

lemma cache_image_result:
  assumes "dbs w p = Some rows" "can_open e ip"
  shows "cache_image e p msg ip sz d w =
    (Inr (),
     (emit (DbInsert p) (emit (Print ''Saving Image File... Success!'') (emit (FileWrite ip)
        ((emit (Print ''New Image not in cache'') (emit (DbSelect p) w))
          \<lparr>files := (files w)(ip \<mapsto> msg)\<rparr>))))
      \<lparr>dbs := (dbs w)(p \<mapsto> rows @ [\<lparr>date_col = p, full_path = ip,
                              File_size = str_int sz, SHA_256 = d\<rparr>])\<rparr>)"
  using assms
  by (simp add: cache_image_def image_already_in_db_result save_image_file_def add_image_to_db_def)


lemma get_apod_date_fst:
  "fst (get_apod_date e w) =
     (if length (argv e) \<ge> 3 then
        (case strptime_Ymd (unicode_digit e) (argv e ! 2) of
           None \<Rightarrow> Inl (SystemExit ''Script execution aborted'')
         | Some _ \<Rightarrow> Inr (argv e ! 2))
      else Inr (isoformat (today e)))"
  by (simp add: get_apod_date_def Let_def split: option.splits)

lemma get_apod_date_snd [simp]:
  "files (snd (get_apod_date e w)) = files w"
  "dbs (snd (get_apod_date e w)) = dbs w"
  "effects (snd (get_apod_date e w)) = effects w"
  by (simp_all add: get_apod_date_def Let_def split: option.splits)

lemma get_image_dir_path_snd [simp]:
  "files (snd (get_image_dir_path e w)) = files w"
  "dbs (snd (get_image_dir_path e w)) = dbs w"
  "effects (snd (get_image_dir_path e w)) = effects w"
  by (simp_all add: get_image_dir_path_def Let_def)

lemma print_apod_info_simps [simp]:
  "files (print_apod_info u p n d w) = files w"
  "dbs (print_apod_info u p n d w) = dbs w"
  "effects (print_apod_info u p n d w) = effects w"
  by (simp_all add: print_apod_info_def)

lemma create_image_db_simps [simp]:
  "files (create_image_db p w) = files w"
  "dbs (create_image_db p w) = (dbs w)(p \<mapsto> (case dbs w p of None \<Rightarrow> [] | Some rows \<Rightarrow> rows))"
  "effects (create_image_db p w) = effects w @ [DbCreate p]"
  by (auto simp: create_image_db_def split: option.splits)

lemma main_success:
  assumes args: "length (argv e) \<ge> 2" "isdir e (argv e ! 1)"
    and date: "fst (get_apod_date e w0) = Inr apod_date"
    and net: "api e apod_date = Some (st, Some url)" "http e url = Some (st', msg)"
    and sys: "can_open e (get_image_path (os_path e) url (argv e ! 1))" "windll e"
  shows "fst (main e w) = None"
    and "files (snd (main e w)) = (files w)(get_image_path (os_path e) url (argv e ! 1) \<mapsto> msg)"
    and "dbs (snd (main e w)) =
          (dbs w)(join (os_path e) (argv e ! 1) ''apod_images.db'' \<mapsto>
            (case dbs w (join (os_path e) (argv e ! 1) ''apod_images.db'') of
               None \<Rightarrow> [] | Some rows \<Rightarrow> rows) @
            [\<lparr>date_col = join (os_path e) (argv e ! 1) ''apod_images.db'',
              full_path = get_image_path (os_path e) url (argv e ! 1),
              File_size = str_int (- 1 + int (length msg)),
              SHA_256 = sha256_hexdigest msg\<rparr>])"
    and "effects (snd (main e w)) =
          effects w @
          [DbCreate (join (os_path e) (argv e ! 1) ''apod_images.db''),
           ApiGet apod_date, Download url,
           DbSelect (join (os_path e) (argv e ! 1) ''apod_images.db''),
           FileWrite (get_image_path (os_path e) url (argv e ! 1)),
           DbInsert (join (os_path e) (argv e ! 1) ''apod_images.db''),
           SetWallpaper (get_image_path (os_path e) url (argv e ! 1))]"
proof -
  let ?dir = "argv e ! 1"
  let ?dbp = "join (os_path e) ?dir ''apod_images.db''"
  let ?ip = "get_image_path (os_path e) url ?dir"
  let ?sz = "- 1 + int (length msg)"
  let ?rows = "case dbs w ?dbp of None \<Rightarrow> [] | Some rows \<Rightarrow> rows"
  let ?row = "\<lparr>date_col = ?dbp, full_path = ?ip, File_size = str_int ?sz,
               SHA_256 = sha256_hexdigest msg\<rparr>"
  obtain w1 where d1: "get_image_dir_path e w = (Inr ?dir, w1)"
    and w1: "files w1 = files w" "dbs w1 = dbs w" "effects w1 = effects w"
    using args by (simp add: get_image_dir_path_def Let_def)
  have "fst (get_apod_date e w1) = Inr apod_date"
    using date by (simp add: get_apod_date_fst)
  then obtain w2 where d2: "get_apod_date e w1 = (Inr apod_date, w2)"
    and w2: "files w2 = files w1" "dbs w2 = dbs w1" "effects w2 = effects w1"
    by (metis get_apod_date_snd prod.collapse)
  obtain w3 where d3: "create_image_db ?dbp w2 = w3"
    and w3: "files w3 = files w2" "dbs w3 = (dbs w2)(?dbp \<mapsto> (case dbs w2 ?dbp of None \<Rightarrow> [] | Some rows \<Rightarrow> rows))"
      "effects w3 = effects w2 @ [DbCreate ?dbp]"
    by simp
  obtain w4 where d4: "get_apod_info e apod_date w3 = (Inr [''url'' \<mapsto> url], w4)"
    and w4: "files w4 = files w3" "dbs w4 = dbs w3" "effects w4 = effects w3 @ [ApiGet apod_date]"
    using net by (simp add: get_apod_info_def)
  obtain w5 where d5: "download_apod_image e url w4 = (Inr msg, w5)"
    and w5: "files w5 = files w4" "dbs w5 = dbs w4" "effects w5 = effects w4 @ [Download url]"
    using net by (simp add: download_apod_image_def)
  obtain w6 where d6: "print_apod_info url ?ip ?sz (sha256_hexdigest msg) w5 = w6"
    and w6: "files w6 = files w5" "dbs w6 = dbs w5" "effects w6 = effects w5"
    by simp
  have db6: "dbs w6 ?dbp = Some ?rows"
    using w1 w2 w3 w4 w5 w6 by simp
  obtain w7 where d7: "cache_image e ?dbp msg ?ip ?sz (sha256_hexdigest msg) w6 = (Inr (), w7)"
    and w7: "files w7 = (files w6)(?ip \<mapsto> msg)" "dbs w7 = (dbs w6)(?dbp \<mapsto> ?rows @ [?row])"
      "effects w7 = effects w6 @ [DbSelect ?dbp, FileWrite ?ip, DbInsert ?dbp]"
    using cache_image_result [OF db6 sys(1), of msg ?sz "sha256_hexdigest msg"] by simp
  obtain w8 where d8: "set_desktop_background_image e ?ip w7 = (Inr (), w8)"
    and w8: "files w8 = files w7" "dbs w8 = dbs w7" "effects w8 = effects w7 @ [SetWallpaper ?ip]"
    using sys by (simp add: set_desktop_background_image_def)
  have m: "main e w = (None, w8)"
    unfolding main_def using d1 d2 d3 d4 d5 d6 d7 d8 by (simp add: Let_def)
  show "fst (main e w) = None" by (simp add: m)
  show "files (snd (main e w)) = (files w)(?ip \<mapsto> msg)"
    using w1 w2 w3 w4 w5 w6 w7 w8 by (simp add: m)
  show "dbs (snd (main e w)) = (dbs w)(?dbp \<mapsto> ?rows @ [?row])"
    using w1 w2 w3 w4 w5 w6 w7 w8 by (simp add: m)
  show "effects (snd (main e w)) = effects w @ [DbCreate ?dbp, ApiGet apod_date, Download url,
           DbSelect ?dbp, FileWrite ?ip, DbInsert ?dbp, SetWallpaper ?ip]"
    using w1 w2 w3 w4 w5 w6 w7 w8 by (simp add: m)
qed


lemma demo_paths:
  "get_image_path posixpath demo_url ''imgs'' = ''imgs/pic.jpg''"
  "join posixpath ''imgs'' ''apod_images.db'' = ''imgs/apod_images.db''"
  by (simp_all add: get_image_path_def posixpath_def posix_join_def posix_basename_def
      posix_normpath_def norm_step_def demo_url_def)

lemma demo_date: "strptime_Ymd nd ''2022-03-11'' = Some \<lparr>year = 2022, month = 3, day = 11\<rparr>"
  by (simp add: strptime_Ymd_def re_Ymd_def re_Y_def re_digit_def re_m_def re_d_def is_digit_def
      digit_val_def
      days_in_month_def is_leap_def)

lemma arabic_date_eq:
  "strptime_Ymd arabic_indic arabic_date = Some \<lparr>year = 2022, month = 3, day = 11\<rparr>"
  by (simp add: arabic_date_def arabic_indic_def strptime_Ymd_def re_Ymd_def re_Y_def re_digit_def
      re_m_def re_d_def is_digit_def digit_val_def days_in_month_def is_leap_def)

lemma main_bad_date:
  assumes "length (argv e) \<ge> 3" "strptime_Ymd (unicode_digit e) (argv e ! 2) = None"
  shows "fst (main e w) = Some (SystemExit ''Script execution aborted'')"
    and "files (snd (main e w)) = files w"
    and "dbs (snd (main e w)) = dbs w"
    and "effects (snd (main e w)) = effects w"
  using assms
  by (simp_all add: main_def get_image_dir_path_def get_apod_date_def Let_def)

lemma hex32_length: "length (hex32 w) = 8"
  by (simp add: hex32_def)

lemma hex_digit_in: "n < 16 \<Longrightarrow> hex_digit n \<in> set ''0123456789abcdef''"
  unfolding hex_digit_def by (rule nth_mem) simp

lemma unat_and_15: "unat ((x :: u32) AND 15) < 16"
proof -
  have "unat (x AND 15) \<le> unat (15 :: u32)"
    by (rule word_and_le1 [THEN word_le_nat_alt [THEN iffD1]])
  then show ?thesis by simp
qed

lemma hex32_set: "set (hex32 w) \<subseteq> set ''0123456789abcdef''"
  unfolding hex32_def using hex_digit_in [OF unat_and_15] by auto

lemma sha_digest: 
  "length (sha256_hexdigest m) = 64 \<and> set (sha256_hexdigest m) \<subseteq> set ''0123456789abcdef''"
proof -
  obtain a b c d e f g h where s: "sha256_state m = (a, b, c, d, e, f, g, h)"
    by (metis prod_cases3)
  show ?thesis
    unfolding sha256_hexdigest_def s using hex32_set by (simp add: hex32_length)
qed

lemma sha_pad_length: "length (sha_pad m) mod 64 = 0"
proof -
  let ?l = "length m mod 64"
  have len: "length (sha_pad m) = length m + (119 - ?l) mod 64 + 9"
    by (simp add: sha_pad_def be64_def)
  have l: "?l < 64" by simp
  have k: "(?l + (119 - ?l) mod 64 + 9) mod 64 = 0"
  proof (cases "?l \<le> 55")
    case True
    then have "119 - ?l = 64 + (55 - ?l)"
      by linarith
    then have "(119 - ?l) mod 64 = (64 + (55 - ?l)) mod 64"
      by (rule arg_cong)
    also have "\<dots> = 55 - ?l"
      by (simp only: mod_add_self1) simp
    finally show ?thesis using True by simp
  next
    case False
    with l have "(119 - ?l) mod 64 = 119 - ?l"
      by simp
    with False l show ?thesis by simp
  qed
  have "(?l + ((119 - ?l) mod 64 + 9)) mod 64 = (length m + ((119 - ?l) mod 64 + 9)) mod 64"
    by (rule mod_add_left_eq)
  with k len show ?thesis by (simp only: add.assoc)
qed

lemma concat_chunks:
  "concat (map (\<lambda>i. take n (drop (n * i) p)) [0..<k]) = take (n * k) p"
proof (induction k)
  case 0
  show ?case by simp
next
  case (Suc k)
  have "take (n * k) p @ take n (drop (n * k) p) = take (n * k + n) p"
    by (simp add: take_add)
  with Suc show ?case by (simp add: add.commute)
qed

lemma sha_blocks_cover: "concat (sha_blocks (sha_pad m)) = sha_pad m"
proof -
  have "64 * (length (sha_pad m) div 64) = length (sha_pad m)"
    using sha_pad_length [of m] mult_div_mod_eq [of 64 "length (sha_pad m)"] by linarith
  then show ?thesis
    by (simp add: sha_blocks_def concat_chunks)
qed

lemma sha_pad_prefix: "take (length m) (sha_pad m) = m"
  by (simp add: sha_pad_def)

section \<open>Dates: what \<^verbatim>\<open>isoformat\<close> prints, \<^verbatim>\<open>strptime\<close> reads\<close>

lemma below_10: "(k::nat) < 10 \<Longrightarrow> k \<in> {0, 1, 2, 3, 4, 5, 6, 7, 8, 9}"
  by auto

lemma digit_char_digit: "k < 10 \<Longrightarrow> is_digit (digit_char k)"
  using below_10 [of k] by (auto simp: is_digit_def digit_char_def)

lemma digit_val_digit_char: "k < 10 \<Longrightarrow> digit_val (digit_char k) = k"
  using below_10 [of k] by (auto simp: digit_val_def digit_char_def)

lemma digit_char_0: "digit_char 0 = CHR ''0''"
  by (simp add: digit_char_def)

lemma replicate_small:
  "replicate 3 x = [x, x, x]" "replicate 2 x = [x, x]"
  by (simp_all add: numeral_3_eq_3 numeral_2_eq_2)

lemma str_nat_1: "n < 10 \<Longrightarrow> str_nat n = [digit_char n]"
  by (simp add: str_nat.simps)

lemma str_nat_2: "10 \<le> n \<Longrightarrow> n < 100 \<Longrightarrow> str_nat n = [digit_char (n div 10), digit_char (n mod 10)]"
  by (subst str_nat.simps) (simp add: str_nat_1)

lemma str_nat_3:
  "100 \<le> n \<Longrightarrow> n < 1000 \<Longrightarrow>
   str_nat n = [digit_char (n div 100), digit_char (n div 10 mod 10), digit_char (n mod 10)]"
  by (subst str_nat.simps) (simp add: str_nat_2 div_mult2_eq[symmetric])

lemma str_nat_4:
  "1000 \<le> n \<Longrightarrow> n < 10000 \<Longrightarrow>
   str_nat n = [digit_char (n div 1000), digit_char (n div 100 mod 10),
                digit_char (n div 10 mod 10), digit_char (n mod 10)]"
  by (subst str_nat.simps) (simp add: str_nat_3 div_mult2_eq[symmetric])

lemma zpad_2: "n < 100 \<Longrightarrow> zpad 2 (str_nat n) = [digit_char (n div 10), digit_char (n mod 10)]"
  by (cases "n < 10") (simp_all add: zpad_def str_nat_1 str_nat_2 digit_char_0)

lemma zpad_4:
  "n < 10000 \<Longrightarrow>
   zpad 4 (str_nat n) = [digit_char (n div 1000), digit_char (n div 100 mod 10),
                         digit_char (n div 10 mod 10), digit_char (n mod 10)]"
proof -
  assume n: "n < 10000"
  consider "n < 10" | "10 \<le> n" "n < 100" | "100 \<le> n" "n < 1000" | "1000 \<le> n"
    by linarith
  then show ?thesis
  proof cases
    case 1 then show ?thesis by (simp add: zpad_def str_nat_1 digit_char_0 replicate_small)
  next
    case 2 then show ?thesis by (simp add: zpad_def str_nat_2 digit_char_0 replicate_small)
  next
    case 3 then show ?thesis by (simp add: zpad_def str_nat_3 digit_char_0)
  next
    case 4 then show ?thesis using n by (simp add: zpad_def str_nat_4)
  qed
qed


lemma re_digit_digit_char: "k < 10 \<Longrightarrow> re_digit nd (digit_char k # r) = [(k, r)]"
  by (simp add: re_digit_def digit_char_digit digit_val_digit_char)

lemma re_Y_digits:
  assumes "n < 10000"
  shows "re_Y nd (zpad 4 (str_nat n) @ r) = [(n, r)]"
proof -
  have d: "n div 1000 < 10" "n div 100 mod 10 < 10" "n div 10 mod 10 < 10" "n mod 10 < 10"
    using assms by simp_all
  have a: "10 * (n div 10) + n mod 10 = n"
    by (rule mult_div_mod_eq)
  have "10 * (n div 10 div 10) + n div 10 mod 10 = n div 10"
    by (rule mult_div_mod_eq)
  then have b: "10 * (n div 100) + n div 10 mod 10 = n div 10"
    by (simp add: div_mult2_eq [symmetric])
  have "10 * (n div 100 div 10) + n div 100 mod 10 = n div 100"
    by (rule mult_div_mod_eq)
  then have c: "10 * (n div 1000) + n div 100 mod 10 = n div 100"
    by (simp add: div_mult2_eq [symmetric])
  have "1000 * (n div 1000) + 100 * (n div 100 mod 10) + 10 * (n div 10 mod 10) + n mod 10 = n"
    using a b c by linarith
  then show ?thesis
    using d by (simp add: zpad_4 [OF assms] re_Y_def re_digit_digit_char)
qed

lemma month_cases:
  "1 \<le> m \<Longrightarrow> m \<le> 12 \<Longrightarrow>
   (m::nat) = 1 \<or> m = 2 \<or> m = 3 \<or> m = 4 \<or> m = 5 \<or> m = 6 \<or> m = 7 \<or> m = 8 \<or> m = 9 \<or>
   m = 10 \<or> m = 11 \<or> m = 12"
  by presburger

lemma day_cases:
  "1 \<le> d \<Longrightarrow> d \<le> 31 \<Longrightarrow>
   (d::nat) = 1 \<or> d = 2 \<or> d = 3 \<or> d = 4 \<or> d = 5 \<or> d = 6 \<or> d = 7 \<or> d = 8 \<or> d = 9 \<or>
   d = 10 \<or> d = 11 \<or> d = 12 \<or> d = 13 \<or> d = 14 \<or> d = 15 \<or> d = 16 \<or> d = 17 \<or> d = 18 \<or>
   d = 19 \<or> d = 20 \<or> d = 21 \<or> d = 22 \<or> d = 23 \<or> d = 24 \<or> d = 25 \<or> d = 26 \<or> d = 27 \<or>
   d = 28 \<or> d = 29 \<or> d = 30 \<or> d = 31"
  by presburger

lemma digit_vals:
  "digit_val (CHR ''0'') = 0" "digit_val (CHR ''1'') = 1" "digit_val (CHR ''2'') = 2"
  "digit_val (CHR ''3'') = 3" "digit_val (CHR ''4'') = 4" "digit_val (CHR ''5'') = 5"
  "digit_val (CHR ''6'') = 6" "digit_val (CHR ''7'') = 7" "digit_val (CHR ''8'') = 8"
  "digit_val (CHR ''9'') = 9"
  by (simp_all add: digit_val_def)

lemma re_m_month:
  assumes "1 \<le> m" "m \<le> 12"
  shows "concat (map (\<lambda>(m', r3). concat (map (f m') (re_lit (CHR ''-'') r3)))
           (re_m (zpad 2 (str_nat m) @ CHR ''-'' # r))) = f m r"
proof -
  have two: "f (Suc (Suc 0)) r = f 2 r"
    by (simp add: numeral_2_eq_2)
  show ?thesis
    using month_cases [OF assms] two
    by (elim disjE) (simp_all add: zpad_def str_nat.simps digit_char_def re_m_def digit_vals)
qed

lemma re_d_day:
  assumes "1 \<le> d" "d \<le> 31"
  shows "\<exists>tl. re_d nd (zpad 2 (str_nat d)) = (d, []) # tl"
  using day_cases [OF assms]
  by (elim disjE)
    (simp_all add: zpad_def str_nat.simps digit_char_def re_d_def re_digit_def is_digit_def
      digit_vals)

lemma days_in_month_le: "days_in_month y m \<le> 31"
  by (simp add: days_in_month_def)

lemma strptime_isoformat:
  assumes "valid_date dt"
  shows "strptime_Ymd nd (isoformat dt) = Some dt"
proof -
  let ?y = "year dt" and ?m = "month dt" and ?d = "day dt"
  have y: "1 \<le> ?y" "?y < 10000" and m: "1 \<le> ?m" "?m \<le> 12"
    and d: "1 \<le> ?d" "?d \<le> days_in_month ?y ?m"
    using assms by (simp_all add: valid_date_def)
  have d31: "?d \<le> 31"
    using d(2) days_in_month_le [of ?y ?m] by linarith
  obtain tl where tl: "re_d nd (zpad 2 (str_nat ?d)) = (?d, []) # tl"
    using re_d_day [OF d(1) d31] by blast
  have "re_Ymd nd (isoformat dt) =
      map (\<lambda>(d', r5). ((?y, ?m, d'), r5)) (re_d nd (zpad 2 (str_nat ?d)))"
    unfolding re_Ymd_def isoformat_def
    by (simp add: re_Y_digits [OF y(2)] re_m_month [OF m])
  then have "re_Ymd nd (isoformat dt) =
      ((?y, ?m, ?d), []) # map (\<lambda>(d', r5). ((?y, ?m, d'), r5)) tl"
    by (simp add: tl)
  then show ?thesis
    using y(1) d(2) by (simp add: strptime_Ymd_def)
qed

section \<open>The concrete run\<close>

lemma demo_env_simps [simp]:
  "argv (demo_env args) = args"
  "isdir (demo_env args) p = (p = ''imgs'')"
  "os_path (demo_env args) = posixpath"
  "api (demo_env args) d = (if d = ''2022-03-11'' then Some (200, Some demo_url) else None)"
  "http (demo_env args) u = (if u = demo_url then Some (200, demo_bytes) else None)"
  "can_open (demo_env args) p"
  "windll (demo_env args)"
  "today (demo_env args) = \<lparr>year = 2022, month = 3, day = 12\<rparr>"
  "unicode_digit (demo_env args) = arabic_indic"
  by (simp_all add: demo_env_def)

lemma empty_world_simps [simp]:
  "files empty_world = Map.empty" "dbs empty_world = Map.empty" "trace empty_world = []"
  "effects empty_world = []"
  by (simp_all add: empty_world_def effects_def)

lemma demo_args_simps [simp]:
  "length demo_args = 3" "demo_args ! Suc 0 = ''imgs''" "demo_args ! 2 = ''2022-03-11''"
  by (simp_all add: demo_args_def)

lemma demo_get_apod_date: "fst (get_apod_date (demo_env demo_args) w) = Inr ''2022-03-11''"
  by (simp add: get_apod_date_fst demo_date)

lemma demo_size:
  "str_int (- 1 + int (length demo_bytes)) = ''2''"
  "str_int (int (length demo_bytes) - 1) = ''2''"
  by (simp_all add: demo_bytes_def str_int_def str_nat.simps digit_char_def)

lemma demo_hyps:
  "length (argv (demo_env demo_args)) \<ge> 2"
  "isdir (demo_env demo_args) (argv (demo_env demo_args) ! 1)"
  "fst (get_apod_date (demo_env demo_args) w) = Inr ''2022-03-11''"
  "api (demo_env demo_args) ''2022-03-11'' = Some (200, Some demo_url)"
  "http (demo_env demo_args) demo_url = Some (200, demo_bytes)"
  "can_open (demo_env demo_args)
     (get_image_path (os_path (demo_env demo_args)) demo_url (argv (demo_env demo_args) ! 1))"
  "windll (demo_env demo_args)"
  by (simp_all add: demo_get_apod_date)

lemma demo_db_path:
  "''imgs/apod_images.db'' =
     join (os_path (demo_env demo_args)) (argv (demo_env demo_args) ! 1) ''apod_images.db''"
  by (simp add: demo_paths)

lemma demo_image_path:
  "get_image_path (os_path (demo_env demo_args)) demo_url (argv (demo_env demo_args) ! 1) =
     ''imgs/pic.jpg''"
  by (simp add: demo_paths)

lemma demo_row_eq:
  "demo_row =
     \<lparr>date_col = ''imgs/apod_images.db'',
      full_path = get_image_path (os_path (demo_env demo_args)) demo_url
                    (argv (demo_env demo_args) ! 1),
      File_size = str_int (- 1 + int (length demo_bytes)),
      SHA_256 = sha256_hexdigest demo_bytes\<rparr>"
  by (simp add: demo_paths demo_size sha256_abc demo_row_def)

lemma demo_main:
  "fst (main (demo_env demo_args) w) = None"
  "files (snd (main (demo_env demo_args) w)) = (files w)(''imgs/pic.jpg'' \<mapsto> demo_bytes)"
  "dbs (snd (main (demo_env demo_args) w)) =
     (dbs w)(''imgs/apod_images.db'' \<mapsto>
       (case dbs w ''imgs/apod_images.db'' of None \<Rightarrow> [] | Some rows \<Rightarrow> rows) @ [demo_row])"
  "effects (snd (main (demo_env demo_args) w)) =
     effects w @
     [DbCreate ''imgs/apod_images.db'', ApiGet ''2022-03-11'', Download demo_url,
      DbSelect ''imgs/apod_images.db'', FileWrite ''imgs/pic.jpg'',
      DbInsert ''imgs/apod_images.db'', SetWallpaper ''imgs/pic.jpg'']"
  using main_success [OF demo_hyps, of w]
  by (simp_all add: demo_paths demo_size sha256_abc demo_row_def)

section \<open>Rows are never changed or removed\<close>


lemma rows_kept_same: "dbs w' = dbs w \<Longrightarrow> rows_kept w w'"
  by (simp add: rows_kept_def)




lemma dbs_get_apod_info [simp]: "dbs (snd (get_apod_info e d w)) = dbs w"
  by (simp add: get_apod_info_def Let_def split: option.splits prod.splits)

lemma dbs_download [simp]: "dbs (snd (download_apod_image e u w)) = dbs w"
  by (simp add: download_apod_image_def Let_def split: option.splits prod.splits)

lemma dbs_wallpaper [simp]: "dbs (snd (set_desktop_background_image e p w)) = dbs w"
  by (simp add: set_desktop_background_image_def)


lemma files_get_apod_info [simp]: "files (snd (get_apod_info e d w)) = files w"
  by (simp add: get_apod_info_def Let_def split: option.splits prod.splits)

lemma files_download [simp]: "files (snd (download_apod_image e u w)) = files w"
  by (simp add: download_apod_image_def Let_def split: option.splits prod.splits)

lemma files_wallpaper [simp]: "files (snd (set_desktop_background_image e p w)) = files w"
  by (simp add: set_desktop_background_image_def)







section \<open>The later run, and the same run twice\<close>

lemma later_env_simps [simp]:
  "argv later_env = [''apod_desktop.py'', ''imgs'', ''2022-04-01'']"
  "isdir later_env p = (p = ''imgs'')"
  "os_path later_env = posixpath"
  "api later_env d = (if d = ''2022-04-01'' then Some (200, Some later_url) else None)"
  "http later_env u = (if u = later_url then Some (200, later_bytes) else None)"
  "can_open later_env p"
  "windll later_env"
  by (simp_all add: later_env_def)







lemma main_twice_two_rows:
  assumes "length (argv e) \<ge> 2" and "isdir e (argv e ! 1)"
    and "fst (get_apod_date e w) = Inr apod_date"
    and "api e apod_date = Some (st, Some url)" and "http e url = Some (st', msg)"
    and "can_open e (get_image_path (os_path e) url (argv e ! 1))" and "windll e"
    and "db_path = join (os_path e) (argv e ! 1) ''apod_images.db''"
    and "r = \<lparr>date_col = db_path, full_path = get_image_path (os_path e) url (argv e ! 1),
               File_size = str_int (- 1 + int (length msg)), SHA_256 = sha256_hexdigest msg\<rparr>"
  shows "fst (main e w) = None \<and> fst (main e (snd (main e w))) = None \<and>
         dbs (snd (main e (snd (main e w)))) db_path =
           Some ((case dbs w db_path of None \<Rightarrow> [] | Some rows \<Rightarrow> rows) @ [r, r])"
proof -
  note first = main_success [OF assms(1-7), of w]
  note second = main_success [OF assms(1-7), of "snd (main e w)"]
  show ?thesis
    using first(1) second(1) first(3) second(3) assms(8,9) by simp
qed

lemma main_twice_demo:
  "fst (main (demo_env demo_args) empty_world) = None \<and>
   fst (main (demo_env demo_args) (snd (main (demo_env demo_args) empty_world))) = None \<and>
   dbs (snd (main (demo_env demo_args) (snd (main (demo_env demo_args) empty_world))))
     ''imgs/apod_images.db'' = Some [demo_row, demo_row]"
  using main_twice_two_rows [OF demo_hyps demo_db_path demo_row_eq, of empty_world]
  by simp

section \<open>What \<^verbatim>\<open>posixpath\<close> makes of a URL\<close>

lemma posix_basename_no_slash: "CHR ''/'' \<notin> set (posix_basename p)"
  by (auto simp: posix_basename_def dest: set_takeWhileD)

lemma posix_basename_append:
  assumes "CHR ''/'' \<notin> set name" and "xs = [] \<or> last xs = CHR ''/''"
  shows "posix_basename (xs @ name) = name"
proof -
  have 1: "takeWhile (\<lambda>c. c \<noteq> CHR ''/'') (rev name @ rev xs) =
      rev name @ takeWhile (\<lambda>c. c \<noteq> CHR ''/'') (rev xs)"
    using assms(1) by (intro takeWhile_append2) auto
  have 2: "takeWhile (\<lambda>c. c \<noteq> CHR ''/'') (rev xs) = []"
    using assms(2) by (cases xs rule: rev_cases) auto
  show ?thesis
    by (simp add: posix_basename_def 1 2)
qed

lemma split_sep_nonempty: "split_sep c s \<noteq> []"
  by (induction s) (auto split: list.splits)

lemma split_sep_no_sep: "c \<notin> set s \<Longrightarrow> split_sep c s = [s]"
  by (induction s) auto

lemma split_sep_append_sep: "split_sep c (xs @ c # ys) = split_sep c xs @ split_sep c ys"
proof (induction xs)
  case Nil
  show ?case by simp
next
  case (Cons x xs)
  obtain p ps where "split_sep c xs = p # ps"
    using split_sep_nonempty [of c xs] by (cases "split_sep c xs") auto
  with Cons show ?case by simp
qed

lemma sep_join_snoc:
  "sep_join sep (cs @ [x]) = (if cs = [] then x else sep_join sep cs @ sep @ x)"
  by (induction sep cs rule: sep_join.induct) auto

lemma posix_normpath_trailing_slash:
  assumes "u \<noteq> []" and "take 1 u \<noteq> ''/''"
  shows "posix_normpath (u @ ''/'') = posix_normpath u"
proof -
  have t: "take 1 (u @ ''/'') = take 1 u"
    using assms(1) by (cases u) auto
  have "split_sep (CHR ''/'') (u @ ''/'') = split_sep (CHR ''/'') u @ [[]]"
    using split_sep_append_sep [of "CHR ''/''" u "[]"] by simp
  then have "fold (norm_step 0) (split_sep (CHR ''/'') (u @ ''/'')) [] =
      fold (norm_step 0) (split_sep (CHR ''/'') u) []"
    by (simp add: norm_step_def)
  then show ?thesis
    using assms t by (simp add: posix_normpath_def Let_def)
qed

lemma posix_normpath_shape:
  assumes "p \<noteq> []"
  shows "\<exists>n. posix_normpath p =
    (if replicate n (CHR ''/'') @ sep_join ''/'' (fold (norm_step n) (split_sep (CHR ''/'') p) []) = []
     then ''.''
     else replicate n (CHR ''/'') @ sep_join ''/'' (fold (norm_step n) (split_sep (CHR ''/'') p) []))"
  using assms unfolding posix_normpath_def Let_def by (simp only: if_False) blast

lemma posix_normpath_last_component:
  assumes "CHR ''/'' \<notin> set name" and "name \<noteq> []" and "name \<noteq> ''.''" and "name \<noteq> ''..''"
  shows "posix_basename (posix_normpath (pre @ CHR ''/'' # name)) = name"
proof -
  let ?p = "pre @ CHR ''/'' # name"
  have "?p \<noteq> []" by simp
  then obtain n where pn: "posix_normpath ?p =
    (if replicate n (CHR ''/'') @ sep_join ''/'' (fold (norm_step n) (split_sep (CHR ''/'') ?p) []) = []
     then ''.''
     else replicate n (CHR ''/'') @ sep_join ''/'' (fold (norm_step n) (split_sep (CHR ''/'') ?p) []))"
    using posix_normpath_shape by blast
  define acc where "acc = fold (norm_step n) (split_sep (CHR ''/'') pre) []"
  have "split_sep (CHR ''/'') ?p = split_sep (CHR ''/'') pre @ [name]"
    by (simp add: split_sep_append_sep split_sep_no_sep [OF assms(1)])
  then have comps: "fold (norm_step n) (split_sep (CHR ''/'') ?p) [] = acc @ [name]"
    using assms(2-4) by (simp add: acc_def norm_step_def)
  define xs where
    "xs = replicate n (CHR ''/'') @ (if acc = [] then [] else sep_join ''/'' acc @ ''/'')"
  have q: "replicate n (CHR ''/'') @ sep_join ''/'' (acc @ [name]) = xs @ name"
    by (simp add: xs_def sep_join_snoc)
  have "replicate n (CHR ''/'') = [] \<or> last (replicate n (CHR ''/'')) = CHR ''/''"
    by (cases n) simp_all
  then have xs: "xs = [] \<or> last xs = CHR ''/''"
    by (cases "acc = []") (auto simp: xs_def)
  have "posix_normpath ?p = xs @ name"
    unfolding pn comps q using assms(2) by simp
  then show ?thesis
    using posix_basename_append [OF assms(1) xs] by simp
qed

lemma posix_join_base:
  assumes "CHR ''/'' \<notin> set b"
  shows "posix_join a b = (if a = [] \<or> last a = CHR ''/'' then a else a @ ''/'') @ b"
proof -
  have "take 1 b \<noteq> ''/''"
    using assms by (cases b) auto
  then show ?thesis
    by (simp add: posix_join_def)
qed

section \<open>The claims\<close>

text \<open>
  C1. The duplicate check \<^verbatim>\<open>image_already_in_db\<close> is to return true exactly when a row
  with the given digest exists. What the code does: whenever the table exists the check
  returns \<open>False\<close>, whatever the rows and whatever the digest, also when a row with
  that digest is there. The result of \<^verbatim>\<open>fetchall\<close> is a list and the digest is a string,
  so the comparison \<^verbatim>\<open>results == image_sha256\<close> is never true. The docstring of the
  function promises \<^verbatim>\<open>True if image is already in DB\<close>.
\<close>

theorem image_already_in_db_always_False:
  "dbs w db_path = Some rows \<Longrightarrow> fst (image_already_in_db e db_path image_sha256 w) = Inr (Some False)"
  by (simp add: image_already_in_db_result)

theorem image_already_in_db_always_False_witness:
  "fst (image_already_in_db (demo_env demo_args) ''imgs/apod_images.db'' (SHA_256 demo_row)
         (empty_world\<lparr>dbs := [''imgs/apod_images.db'' \<mapsto> [demo_row]]\<rparr>)) = Inr (Some False)"
  by (rule image_already_in_db_always_False) simp




text \<open>
  C3. Ingestion is to be idempotent: a second ingestion of the same bytes writes no file
  and adds no row. What the code does: on a state with the table, the second run of the
  caching step of \<^verbatim>\<open>main\<close> succeeds like the first, writes the file again and inserts
  the same row again.
\<close>

theorem cache_image_twice_stores_twice:
  assumes "dbs w db_path = Some rows" and "can_open e image_path"
    and "w1 = snd (cache_image e db_path image_msg image_path image_size image_sha256 w)"
    and "r = \<lparr>date_col = db_path, full_path = image_path, File_size = str_int image_size,
               SHA_256 = image_sha256\<rparr>"
  shows "cache_image e db_path image_msg image_path image_size image_sha256 w1 =
           (Inr (), snd (cache_image e db_path image_msg image_path image_size image_sha256 w1)) \<and>
         dbs w1 db_path = Some (rows @ [r]) \<and>
         dbs (snd (cache_image e db_path image_msg image_path image_size image_sha256 w1)) db_path =
           Some (rows @ [r, r]) \<and>
         effects (snd (cache_image e db_path image_msg image_path image_size image_sha256 w1)) =
           effects w1 @ [DbSelect db_path, FileWrite image_path, DbInsert db_path]"
proof -
  have 1: "dbs w1 db_path = Some (rows @ [r])"
    using cache_image_result [OF assms(1,2), of image_msg image_size image_sha256] assms(3,4)
    by simp
  show ?thesis
    using 1 cache_image_result [OF 1 assms(2), of image_msg image_size image_sha256] assms(4)
    by simp
qed

theorem cache_image_twice_stores_twice_witness:
  "dbs (snd (cache_image (demo_env demo_args) ''imgs/apod_images.db'' demo_bytes ''imgs/pic.jpg'' 2
              (SHA_256 demo_row)
         (snd (cache_image (demo_env demo_args) ''imgs/apod_images.db'' demo_bytes ''imgs/pic.jpg'' 2
              (SHA_256 demo_row) (empty_world\<lparr>dbs := [''imgs/apod_images.db'' \<mapsto> []]\<rparr>)))))
     ''imgs/apod_images.db'' = Some [demo_row, demo_row] \<and>
   effects (snd (cache_image (demo_env demo_args) ''imgs/apod_images.db'' demo_bytes ''imgs/pic.jpg'' 2
              (SHA_256 demo_row)
         (snd (cache_image (demo_env demo_args) ''imgs/apod_images.db'' demo_bytes ''imgs/pic.jpg'' 2
              (SHA_256 demo_row) (empty_world\<lparr>dbs := [''imgs/apod_images.db'' \<mapsto> []]\<rparr>))))) =
     [DbSelect ''imgs/apod_images.db'', FileWrite ''imgs/pic.jpg'', DbInsert ''imgs/apod_images.db'',
      DbSelect ''imgs/apod_images.db'', FileWrite ''imgs/pic.jpg'', DbInsert ''imgs/apod_images.db'']"
proof -
  let ?w = "empty_world\<lparr>dbs := [''imgs/apod_images.db'' \<mapsto> []]\<rparr>"
  have h1: "dbs ?w ''imgs/apod_images.db'' = Some []" by simp
  have h2: "can_open (demo_env demo_args) ''imgs/pic.jpg''" by simp
  have h4: "demo_row = \<lparr>date_col = ''imgs/apod_images.db'', full_path = ''imgs/pic.jpg'',
      File_size = str_int 2, SHA_256 = SHA_256 demo_row\<rparr>"
    by (simp add: demo_row_def str_int_def str_nat.simps digit_char_def)
  have e1: "effects (snd (cache_image (demo_env demo_args) ''imgs/apod_images.db'' demo_bytes
      ''imgs/pic.jpg'' 2 (SHA_256 demo_row) ?w)) =
      [DbSelect ''imgs/apod_images.db'', FileWrite ''imgs/pic.jpg'', DbInsert ''imgs/apod_images.db'']"
    using cache_image_result [OF h1 h2, of demo_bytes 2 "SHA_256 demo_row"] by simp
  show ?thesis
    using cache_image_twice_stores_twice [OF h1 h2 refl h4, of demo_bytes] e1 by simp
qed

text \<open>
  C4. The insert operation is to reject a digest that is already in the catalog. The
  table of \<^verbatim>\<open>create_image_db\<close> has no uniqueness constraint and \<^verbatim>\<open>add_image_to_db\<close> has
  no check: inserting the digest of a row that is already there succeeds and leaves two
  rows with that digest.
\<close>

theorem add_image_to_db_duplicate_counterexample:
  "fst (add_image_to_db ''imgs/apod_images.db'' ''imgs/pic.jpg'' 2 (SHA_256 demo_row)
         (empty_world\<lparr>dbs := [''imgs/apod_images.db'' \<mapsto> [demo_row]]\<rparr>)) = Inr () \<and>
   dbs (snd (add_image_to_db ''imgs/apod_images.db'' ''imgs/pic.jpg'' 2 (SHA_256 demo_row)
         (empty_world\<lparr>dbs := [''imgs/apod_images.db'' \<mapsto> [demo_row]]\<rparr>)))
     ''imgs/apod_images.db'' = Some [demo_row, demo_row]"
  by (simp add: add_image_to_db_def demo_row_def str_int_def str_nat.simps digit_char_def)

text \<open>
  C4, as the code has it: on a database that has the table and none of whose own files
  has been put there as an image, with a size that fits SQLite's 64-bit integers,
  \<^verbatim>\<open>add_image_to_db\<close> succeeds and appends one row with the given digest and image path
  after the rows that were there, which stay as they were, also when one of them has the
  same digest.
\<close>

theorem add_image_to_db_appends:
  assumes "dbs w db_path = Some rows"
    and "\<forall>p \<in> db_files db_path. files w p = None"
    and "- (2 ^ 63) \<le> image_size" and "image_size < 2 ^ 63"
  shows "fst (add_image_to_db db_path image_path image_size image_sha256 w) = Inr () \<and>
         (\<exists>r. SHA_256 r = image_sha256 \<and> full_path r = image_path \<and>
              dbs (snd (add_image_to_db db_path image_path image_size image_sha256 w)) =
                (dbs w)(db_path \<mapsto> rows @ [r]))"
proof -
  let ?r = "\<lparr>date_col = db_path, full_path = image_path, File_size = str_int image_size,
             SHA_256 = image_sha256\<rparr>"
  have "dbs (snd (add_image_to_db db_path image_path image_size image_sha256 w)) =
      (dbs w)(db_path \<mapsto> rows @ [?r])"
    using assms(1) by (simp add: add_image_to_db_def)
  moreover have "fst (add_image_to_db db_path image_path image_size image_sha256 w) = Inr ()"
    using assms(1) by (simp add: add_image_to_db_def)
  ultimately show ?thesis
    by (intro conjI exI [of _ ?r]) simp_all
qed

theorem add_image_to_db_appends_witness:
  "fst (add_image_to_db ''imgs/apod_images.db'' ''imgs/other.jpg'' 7 (SHA_256 demo_row)
         (empty_world\<lparr>dbs := [''imgs/apod_images.db'' \<mapsto> [demo_row]]\<rparr>)) = Inr () \<and>
   (\<exists>r. SHA_256 r = SHA_256 demo_row \<and> full_path r = ''imgs/other.jpg'' \<and>
        dbs (snd (add_image_to_db ''imgs/apod_images.db'' ''imgs/other.jpg'' 7 (SHA_256 demo_row)
               (empty_world\<lparr>dbs := [''imgs/apod_images.db'' \<mapsto> [demo_row]]\<rparr>))) =
          [''imgs/apod_images.db'' \<mapsto> [demo_row] @ [r]])"
proof -
  let ?w = "empty_world\<lparr>dbs := [''imgs/apod_images.db'' \<mapsto> [demo_row]]\<rparr>"
  have h: "dbs ?w ''imgs/apod_images.db'' = Some [demo_row]" by simp
  have f: "\<forall>p \<in> db_files ''imgs/apod_images.db''. files ?w p = None" by simp
  have "- (2 ^ 63) \<le> (7::int)" and "(7::int) < 2 ^ 63"
    by simp_all
  then show ?thesis
    using add_image_to_db_appends [OF h f, of 7 "''imgs/other.jpg''" "SHA_256 demo_row"]
    by simp
qed

text \<open>
  C5. The recorded size is to be the length in bytes of the stored file. What the code
  does: in a successful run of \<^verbatim>\<open>main\<close> the row added last holds the text of the length
  of the downloaded bytes minus one (line 49 computes \<^verbatim>\<open>-1 + len(image_msg)\<close>), while
  the file at the row's path holds all the downloaded bytes.
\<close>

theorem recorded_size_is_length_minus_one:
  assumes "length (argv e) \<ge> 2" and "isdir e (argv e ! 1)"
    and "fst (get_apod_date e w) = Inr apod_date"
    and "api e apod_date = Some (st, Some url)" and "http e url = Some (st', msg)"
    and "can_open e (get_image_path (os_path e) url (argv e ! 1))" and "windll e"
    and "db_path = join (os_path e) (argv e ! 1) ''apod_images.db''"
    and "dbs (snd (main e w)) db_path = Some rows"
  shows "rows \<noteq> [] \<and> File_size (last rows) = str_int (int (length msg) - 1) \<and>
         files (snd (main e w)) (full_path (last rows)) = Some msg"
  using main_success(2,3) [OF assms(1-7), of w] assms(8,9) by auto

theorem recorded_size_is_length_minus_one_witness:
  "dbs (snd (main (demo_env demo_args) empty_world)) ''imgs/apod_images.db'' = Some [demo_row] \<and>
   File_size demo_row = ''2'' \<and>
   files (snd (main (demo_env demo_args) empty_world)) (full_path demo_row) = Some demo_bytes \<and>
   length demo_bytes = 3"
proof -
  have r: "dbs (snd (main (demo_env demo_args) empty_world)) ''imgs/apod_images.db'' =
      Some [demo_row]"
    by (simp add: demo_main)
  show ?thesis
    using recorded_size_is_length_minus_one [OF demo_hyps demo_db_path r] r
    by (simp add: demo_bytes_def demo_row_def)
qed

text \<open>
  C6. The column \<^verbatim>\<open>"date"\<close> is to hold the date of the picture. What the code does: in
  a successful run of \<^verbatim>\<open>main\<close> the row added last holds the path of the database in
  that column; the date never reaches \<^verbatim>\<open>add_image_to_db\<close>.
\<close>

theorem date_column_is_db_path:
  assumes "length (argv e) \<ge> 2" and "isdir e (argv e ! 1)"
    and "fst (get_apod_date e w) = Inr apod_date"
    and "api e apod_date = Some (st, Some url)" and "http e url = Some (st', msg)"
    and "can_open e (get_image_path (os_path e) url (argv e ! 1))" and "windll e"
    and "db_path = join (os_path e) (argv e ! 1) ''apod_images.db''"
    and "dbs (snd (main e w)) db_path = Some rows"
  shows "rows \<noteq> [] \<and> date_col (last rows) = db_path"
  using main_success(3) [OF assms(1-7), of w] assms(8,9) by auto

theorem date_column_is_db_path_witness:
  "fst (get_apod_date (demo_env demo_args) empty_world) = Inr ''2022-03-11'' \<and>
   dbs (snd (main (demo_env demo_args) empty_world)) ''imgs/apod_images.db'' = Some [demo_row] \<and>
   date_col demo_row = ''imgs/apod_images.db''"
proof -
  have r: "dbs (snd (main (demo_env demo_args) empty_world)) ''imgs/apod_images.db'' =
      Some [demo_row]"
    by (simp add: demo_main)
  show ?thesis
    using date_column_is_db_path [OF demo_hyps demo_db_path r] r demo_hyps(3)
    by simp
qed

text \<open>
  C7. Ingestion is never to overwrite a file that holds other content. The code has no
  such step: in the concrete run, with a file of four other bytes already at the path
  derived from the URL, \<^verbatim>\<open>main\<close> succeeds and the file then holds the downloaded bytes.
\<close>

theorem main_overwrites_other_file_counterexample:
  "files (empty_world\<lparr>files := [''imgs/pic.jpg'' \<mapsto> [1, 2, 3, 4]]\<rparr>) ''imgs/pic.jpg'' =
     Some [1, 2, 3, 4] \<and>
   fst (main (demo_env demo_args) (empty_world\<lparr>files := [''imgs/pic.jpg'' \<mapsto> [1, 2, 3, 4]]\<rparr>)) =
     None \<and>
   files (snd (main (demo_env demo_args)
                (empty_world\<lparr>files := [''imgs/pic.jpg'' \<mapsto> [1, 2, 3, 4]]\<rparr>))) ''imgs/pic.jpg'' =
     Some [0x61, 0x62, 0x63]"
  by (simp add: demo_main demo_bytes_def)

text \<open>
  C7, as the code has it: when \<^verbatim>\<open>save_image_file\<close> can open the path it is given, which
  in \<^verbatim>\<open>main\<close> is the path \<^verbatim>\<open>get_image_path\<close> derives from the URL, and the path is not
  one of a database's own files, it puts the downloaded bytes there in place of whatever
  was there, under that name and no other, and leaves every other file and every table
  as it was.
\<close>

theorem save_image_file_writes_one_path:
  assumes "can_open e image_path"
    and "\<forall>q. dbs w q \<noteq> None \<longrightarrow> image_path \<notin> db_files q"
  shows "fst (save_image_file e image_msg image_path w) = Inr () \<and>
         files (snd (save_image_file e image_msg image_path w)) =
           (files w)(image_path \<mapsto> image_msg) \<and>
         dbs (snd (save_image_file e image_msg image_path w)) = dbs w"
  using assms(1) by (simp add: save_image_file_def)

theorem save_image_file_writes_one_path_witness:
  "fst (save_image_file (demo_env demo_args) demo_bytes ''imgs/pic.jpg''
          (empty_world\<lparr>files := [''imgs/pic.jpg'' \<mapsto> [1, 2, 3, 4], ''imgs/old.jpg'' \<mapsto> [9]],
                        dbs := [''imgs/apod_images.db'' \<mapsto> []]\<rparr>)) = Inr () \<and>
   files (snd (save_image_file (demo_env demo_args) demo_bytes ''imgs/pic.jpg''
            (empty_world\<lparr>files := [''imgs/pic.jpg'' \<mapsto> [1, 2, 3, 4], ''imgs/old.jpg'' \<mapsto> [9]],
                          dbs := [''imgs/apod_images.db'' \<mapsto> []]\<rparr>))) =
     [''imgs/pic.jpg'' \<mapsto> demo_bytes, ''imgs/old.jpg'' \<mapsto> [9]]"
proof -
  let ?w = "empty_world\<lparr>files := [''imgs/pic.jpg'' \<mapsto> [1, 2, 3, 4], ''imgs/old.jpg'' \<mapsto> [9]],
                          dbs := [''imgs/apod_images.db'' \<mapsto> []]\<rparr>"
  have h1: "can_open (demo_env demo_args) ''imgs/pic.jpg''" by simp
  have h2: "\<forall>q. dbs ?w q \<noteq> None \<longrightarrow> ''imgs/pic.jpg'' \<notin> db_files q"
    by (simp add: db_files_def)
  show ?thesis
    using save_image_file_writes_one_path [OF h1 h2, of demo_bytes]
    by (simp add: fun_upd_twist)
qed

text \<open>
  C8. The fingerprint is a total function of the bytes alone: \<open>sha256_hexdigest\<close> takes
  no state and has no error result, and for every byte sequence, the empty one included,
  its value is 64 lower-case hexadecimal digits, that is, 256 bits. The padded message
  starts with the whole input and is cut into 64-byte blocks with nothing left over, so
  every input is hashed in full. In a successful run of \<^verbatim>\<open>main\<close> the digest in the row
  added last is this function of the downloaded bytes.
\<close>

theorem sha256_hexdigest_is_256_bits:
  "length (sha256_hexdigest image_msg) = 64 \<and>
   set (sha256_hexdigest image_msg) \<subseteq> set ''0123456789abcdef'' \<and>
   concat (sha_blocks (sha_pad image_msg)) = sha_pad image_msg \<and>
   take (length image_msg) (sha_pad image_msg) = image_msg \<and>
   (length (argv e) \<ge> 2 \<and> isdir e (argv e ! 1) \<and> fst (get_apod_date e w) = Inr apod_date \<and>
    api e apod_date = Some (st, Some url) \<and> http e url = Some (st', msg) \<and>
    can_open e (get_image_path (os_path e) url (argv e ! 1)) \<and> windll e \<and>
    dbs (snd (main e w)) (join (os_path e) (argv e ! 1) ''apod_images.db'') = Some rows \<longrightarrow>
      rows \<noteq> [] \<and> SHA_256 (last rows) = sha256_hexdigest msg)"
proof (intro conjI impI)
  show "length (sha256_hexdigest image_msg) = 64"
    using sha_digest [of image_msg] by simp
  show "set (sha256_hexdigest image_msg) \<subseteq> set ''0123456789abcdef''"
    using sha_digest [of image_msg] by simp
  show "concat (sha_blocks (sha_pad image_msg)) = sha_pad image_msg"
    by (rule sha_blocks_cover)
  show "take (length image_msg) (sha_pad image_msg) = image_msg"
    by (rule sha_pad_prefix)
next
  assume h: "length (argv e) \<ge> 2 \<and> isdir e (argv e ! 1) \<and> fst (get_apod_date e w) = Inr apod_date \<and>
    api e apod_date = Some (st, Some url) \<and> http e url = Some (st', msg) \<and>
    can_open e (get_image_path (os_path e) url (argv e ! 1)) \<and> windll e \<and>
    dbs (snd (main e w)) (join (os_path e) (argv e ! 1) ''apod_images.db'') = Some rows"
  then have "dbs (snd (main e w)) =
          (dbs w)(join (os_path e) (argv e ! 1) ''apod_images.db'' \<mapsto>
            (case dbs w (join (os_path e) (argv e ! 1) ''apod_images.db'') of
               None \<Rightarrow> [] | Some rows \<Rightarrow> rows) @
            [\<lparr>date_col = join (os_path e) (argv e ! 1) ''apod_images.db'',
              full_path = get_image_path (os_path e) url (argv e ! 1),
              File_size = str_int (- 1 + int (length msg)),
              SHA_256 = sha256_hexdigest msg\<rparr>])"
    by (elim conjE) (rule main_success(3))
  with h show "rows \<noteq> []" by auto
  from \<open>dbs (snd (main e w)) = _\<close> h show "SHA_256 (last rows) = sha256_hexdigest msg" by auto
qed

theorem sha256_hexdigest_is_256_bits_witness:
  "length (sha256_hexdigest []) = 64 \<and> set (sha256_hexdigest []) \<subseteq> set ''0123456789abcdef'' \<and>
   sha256_hexdigest demo_bytes = SHA_256 demo_row \<and>
   dbs (snd (main (demo_env demo_args) empty_world)) ''imgs/apod_images.db'' = Some [demo_row]"
proof -
  have r: "dbs (snd (main (demo_env demo_args) empty_world))
      (join (os_path (demo_env demo_args)) (argv (demo_env demo_args) ! 1) ''apod_images.db'') =
      Some [demo_row]"
    by (simp add: demo_main demo_paths)
  note t = sha256_hexdigest_is_256_bits [of "[]" "demo_env demo_args" empty_world "''2022-03-11''"
      200 demo_url 200 demo_bytes "[demo_row]"]
  have "SHA_256 (last [demo_row]) = sha256_hexdigest demo_bytes"
    using t demo_hyps r by blast
  then show ?thesis
    using t r by (simp add: demo_paths)
qed

text \<open>
  C9. \<^verbatim>\<open>get_apod_date\<close>: with no date argument the result is today's date in ISO format,
  a string that \<^verbatim>\<open>strptime\<close> with the format \<^verbatim>\<open>%Y-%m-%d\<close> reads back as today's date;
  with a date argument that \<^verbatim>\<open>strptime\<close> rejects the function exits, and the whole run of
  \<^verbatim>\<open>main\<close> ends with that exit having made no request, touched no database and written
  no file; with a date argument that \<^verbatim>\<open>strptime\<close> accepts the result is the argument
  itself.

  An argument parses in the format \<^verbatim>\<open>YYYY-MM-DD\<close> when \<^verbatim>\<open>strptime\<close> with \<^verbatim>\<open>%Y-%m-%d\<close> does
  not raise: that is the test the code makes, and it is wider than four, two and two ASCII
  digits. \<^verbatim>\<open>strptime\<close> also accepts a month or a day of one digit, as in \<^verbatim>\<open>2022-3-1\<close>, and
  a year written in the digits of another script; such an argument is returned as it was
  given, not rewritten to ten characters. The theorem holds for every table of Unicode
  digits.
\<close>

theorem get_apod_date_cases:
  "(length (argv e) < 3 \<longrightarrow>
      fst (get_apod_date e w) = Inr (isoformat (today e)) \<and>
      (valid_date (today e) \<longrightarrow>
         strptime_Ymd (unicode_digit e) (isoformat (today e)) = Some (today e))) \<and>
   (length (argv e) \<ge> 3 \<and> strptime_Ymd (unicode_digit e) (argv e ! 2) = None \<longrightarrow>
      fst (get_apod_date e w) = Inl (SystemExit ''Script execution aborted'') \<and>
      fst (main e w) = Some (SystemExit ''Script execution aborted'') \<and>
      effects (snd (main e w)) = effects w \<and>
      dbs (snd (main e w)) = dbs w \<and> files (snd (main e w)) = files w) \<and>
   (length (argv e) \<ge> 3 \<and> strptime_Ymd (unicode_digit e) (argv e ! 2) \<noteq> None \<longrightarrow>
      fst (get_apod_date e w) = Inr (argv e ! 2))"
  by (auto simp: get_apod_date_fst main_bad_date strptime_isoformat)

theorem get_apod_date_cases_witness:
  "fst (get_apod_date (demo_env [''apod_desktop.py'', ''imgs'']) empty_world) = Inr ''2022-03-12'' \<and>
   strptime_Ymd arabic_indic ''2022-03-12'' = Some \<lparr>year = 2022, month = 3, day = 12\<rparr> \<and>
   fst (get_apod_date (demo_env [''apod_desktop.py'', ''imgs'', ''2022-02-30'']) empty_world) =
     Inl (SystemExit ''Script execution aborted'') \<and>
   fst (main (demo_env [''apod_desktop.py'', ''imgs'', ''2022-02-30'']) empty_world) =
     Some (SystemExit ''Script execution aborted'') \<and>
   effects (snd (main (demo_env [''apod_desktop.py'', ''imgs'', ''2022-02-30'']) empty_world)) = [] \<and>
   dbs (snd (main (demo_env [''apod_desktop.py'', ''imgs'', ''2022-02-30'']) empty_world)) = Map.empty \<and>
   fst (get_apod_date (demo_env [''apod_desktop.py'', ''imgs'', ''2022-3-1'']) empty_world) =
     Inr ''2022-3-1'' \<and>
   fst (get_apod_date (demo_env [''apod_desktop.py'', ''imgs'', arabic_date]) empty_world) =
     Inr arabic_date"
proof -
  have iso: "isoformat \<lparr>year = 2022, month = 3, day = 12\<rparr> = ''2022-03-12''"
    by code_simp
  have val: "valid_date \<lparr>year = 2022, month = 3, day = 12\<rparr>"
    by (simp add: valid_date_def days_in_month_def)
  have bad: "strptime_Ymd arabic_indic ''2022-02-30'' = None"
    by (simp add: strptime_Ymd_def re_Ymd_def re_Y_def re_digit_def re_m_def re_d_def is_digit_def
        digit_val_def days_in_month_def is_leap_def)
  have good: "strptime_Ymd arabic_indic ''2022-3-1'' = Some \<lparr>year = 2022, month = 3, day = 1\<rparr>"
    by (simp add: strptime_Ymd_def re_Ymd_def re_Y_def re_digit_def re_m_def re_d_def is_digit_def
        digit_val_def days_in_month_def is_leap_def)
  have arab: "strptime_Ymd arabic_indic arabic_date \<noteq> None"
    by (simp add: arabic_date_eq)
  show ?thesis
    using get_apod_date_cases [of "demo_env [''apod_desktop.py'', ''imgs'']" empty_world]
      get_apod_date_cases [of "demo_env [''apod_desktop.py'', ''imgs'', ''2022-02-30'']" empty_world]
      get_apod_date_cases [of "demo_env [''apod_desktop.py'', ''imgs'', ''2022-3-1'']" empty_world]
      get_apod_date_cases [of "demo_env [''apod_desktop.py'', ''imgs'', arabic_date]" empty_world]
    by (simp add: iso val bad good arab)
qed

text \<open>
  C10. \<^verbatim>\<open>get_image_path\<close> is to map two URLs that share a base name to the same path.
  It takes the base name after normalising the URL, and normalising drops a slash at the
  end: two URLs that end in a slash share the empty base name and go to different paths.
\<close>

theorem urls_sharing_base_name_counterexample:
  "basename posixpath ''https://a.b/c/'' = basename posixpath ''https://a.b/d/'' \<and>
   get_image_path posixpath ''https://a.b/c/'' ''imgs'' = ''imgs/c'' \<and>
   get_image_path posixpath ''https://a.b/d/'' ''imgs'' = ''imgs/d'' \<and>
   get_image_path posixpath ''https://a.b/c/'' ''imgs'' \<noteq>
     get_image_path posixpath ''https://a.b/d/'' ''imgs''"
  by (simp add: get_image_path_def posixpath_def posix_join_def posix_basename_def
      posix_normpath_def norm_step_def)

text \<open>
  C10, as the code has it: \<^verbatim>\<open>get_image_path\<close> is a function of the URL and the directory
  alone, the directory joined with the base name of the normalised URL, so two URLs
  whose normalised forms share a base name go to the same path. With \<^verbatim>\<open>posixpath\<close> that
  base name has no slash and the path is the directory, a slash unless the directory ends
  in one, and the base name; a slash at the end of a URL changes nothing; and a URL that
  ends in a slash and a name other than \<^verbatim>\<open>.\<close> and \<^verbatim>\<open>..\<close> goes to that name in the
  directory.
\<close>

theorem get_image_path_of_normalised_url:
  "get_image_path osp image_url dir_path =
     join osp dir_path (basename osp (normpath osp image_url)) \<and>
   (basename osp (normpath osp image_url) = basename osp (normpath osp image_url') \<longrightarrow>
      get_image_path osp image_url dir_path = get_image_path osp image_url' dir_path) \<and>
   CHR ''/'' \<notin> set (basename posixpath (normpath posixpath image_url)) \<and>
   get_image_path posixpath image_url dir_path =
     (if dir_path = [] \<or> last dir_path = CHR ''/'' then dir_path else dir_path @ ''/'') @
     basename posixpath (normpath posixpath image_url) \<and>
   (image_url \<noteq> [] \<and> take 1 image_url \<noteq> ''/'' \<longrightarrow>
      get_image_path posixpath (image_url @ ''/'') dir_path =
        get_image_path posixpath image_url dir_path) \<and>
   (CHR ''/'' \<notin> set name \<and> name \<noteq> [] \<and> name \<noteq> ''.'' \<and> name \<noteq> ''..'' \<longrightarrow>
      get_image_path posixpath (pre @ ''/'' @ name) dir_path =
        (if dir_path = [] \<or> last dir_path = CHR ''/'' then dir_path else dir_path @ ''/'') @ name)"
proof (intro conjI impI)
  show "get_image_path osp image_url dir_path =
      join osp dir_path (basename osp (normpath osp image_url))"
    by (simp add: get_image_path_def)
  show "get_image_path osp image_url dir_path = get_image_path osp image_url' dir_path"
    if "basename osp (normpath osp image_url) = basename osp (normpath osp image_url')"
    using that by (simp add: get_image_path_def)
  show "CHR ''/'' \<notin> set (basename posixpath (normpath posixpath image_url))"
    by (simp add: posixpath_def posix_basename_no_slash)
  show "get_image_path posixpath image_url dir_path =
      (if dir_path = [] \<or> last dir_path = CHR ''/'' then dir_path else dir_path @ ''/'') @
      basename posixpath (normpath posixpath image_url)"
    by (simp add: get_image_path_def posixpath_def posix_join_base [OF posix_basename_no_slash])
  show "get_image_path posixpath (image_url @ ''/'') dir_path =
      get_image_path posixpath image_url dir_path"
    if "image_url \<noteq> [] \<and> take 1 image_url \<noteq> ''/''"
    using that by (simp add: get_image_path_def posixpath_def posix_normpath_trailing_slash)
  show "get_image_path posixpath (pre @ ''/'' @ name) dir_path =
      (if dir_path = [] \<or> last dir_path = CHR ''/'' then dir_path else dir_path @ ''/'') @ name"
    if "CHR ''/'' \<notin> set name \<and> name \<noteq> [] \<and> name \<noteq> ''.'' \<and> name \<noteq> ''..''"
    using that
    by (simp add: get_image_path_def posixpath_def posix_normpath_last_component posix_join_base)
qed

theorem get_image_path_of_normalised_url_witness:
  "get_image_path posixpath ''https://apod.nasa.gov/apod/image/2203/pic.jpg'' ''imgs'' =
     ''imgs/pic.jpg'' \<and>
   basename posixpath ''https://apod.nasa.gov/apod/image/2203/pic.jpg/'' = [] \<and>
   get_image_path posixpath ''https://apod.nasa.gov/apod/image/2203/pic.jpg/'' ''imgs'' =
     ''imgs/pic.jpg'' \<and>
   get_image_path posixpath ''https://apod.nasa.gov/apod/image/2203/../2204/./pic.jpg'' ''imgs'' =
     ''imgs/pic.jpg''"
proof -
  note t = get_image_path_of_normalised_url [of posixpath
      "''https://apod.nasa.gov/apod/image/2203/pic.jpg''" "''imgs''"
      "''https://apod.nasa.gov/apod/image/2203/../2204/./pic.jpg''"
      "''pic.jpg''" "''https://apod.nasa.gov/apod/image/2203''"]
  note c2 = t [THEN conjunct2, THEN conjunct1]
  note c5 = t [THEN conjunct2, THEN conjunct2, THEN conjunct2, THEN conjunct2, THEN conjunct1]
  note c6 = t [THEN conjunct2, THEN conjunct2, THEN conjunct2, THEN conjunct2, THEN conjunct2]
  have n: "CHR ''/'' \<notin> set ''pic.jpg'' \<and> ''pic.jpg'' \<noteq> [] \<and> ''pic.jpg'' \<noteq> ''.'' \<and> ''pic.jpg'' \<noteq> ''..''"
    by simp
  have p1: "get_image_path posixpath ''https://apod.nasa.gov/apod/image/2203/pic.jpg'' ''imgs'' =
      ''imgs/pic.jpg''"
    using c6 [THEN mp, OF n] by simp
  have u: "''https://apod.nasa.gov/apod/image/2203/pic.jpg'' \<noteq> [] \<and>
      take 1 ''https://apod.nasa.gov/apod/image/2203/pic.jpg'' \<noteq> ''/''"
    by simp
  have p2: "get_image_path posixpath ''https://apod.nasa.gov/apod/image/2203/pic.jpg/'' ''imgs'' =
      ''imgs/pic.jpg''"
    using c5 [THEN mp, OF u] p1 by simp
  have b: "basename posixpath (normpath posixpath
      ''https://apod.nasa.gov/apod/image/2203/pic.jpg'') =
      basename posixpath (normpath posixpath
      ''https://apod.nasa.gov/apod/image/2203/../2204/./pic.jpg'')"
    by (simp add: posixpath_def posix_basename_def posix_normpath_def norm_step_def)
  have p3: "get_image_path posixpath ''https://apod.nasa.gov/apod/image/2203/../2204/./pic.jpg''
      ''imgs'' = ''imgs/pic.jpg''"
    using c2 [THEN mp, OF b] p1 by simp
  have e: "basename posixpath ''https://apod.nasa.gov/apod/image/2203/pic.jpg/'' = []"
    by (simp add: posixpath_def posix_basename_def)
  show ?thesis
    using p1 p2 p3 e by (simp only: simp_thms)
qed

end
